theory Spec2Isabelle
  imports Complex_Main
begin

section \<open>Values of the host language\<close>

text \<open>
  A JavaScript string is modelled as a \<^typ>\<open>string\<close>: one \<^typ>\<open>char\<close> per code unit,
  so \<^const>\<open>length\<close> is the \<^verbatim>\<open>.length\<close> of the source. A \<^typ>\<open>char\<close> has eight bits, so
  the strings of the model are those whose code units are below 256.

  A JavaScript number is a double. Every finite double denotes a rational, and the
  comparisons of the source (\<^verbatim>\<open><\<close>, \<^verbatim>\<open>>\<close>, \<^verbatim>\<open>===\<close>) are exact on doubles, so a
  finite number is modelled by the rational it denotes; \<^verbatim>\<open>NaN\<close> and the two
  infinities are separate values.
\<close>

datatype jsnumber = Finite rat | NaN | PosInfinity | NegInfinity

fun js_lt :: "jsnumber \<Rightarrow> jsnumber \<Rightarrow> bool" where
  "js_lt NaN _ = False"
| "js_lt _ NaN = False"
| "js_lt (Finite a) (Finite b) = (a < b)"
| "js_lt (Finite a) PosInfinity = True"
| "js_lt (Finite a) NegInfinity = False"
| "js_lt PosInfinity _ = False"
| "js_lt NegInfinity NegInfinity = False"
| "js_lt NegInfinity _ = True"

definition js_gt :: "jsnumber \<Rightarrow> jsnumber \<Rightarrow> bool" where
  "js_gt a b = js_lt b a"

text \<open>\<^verbatim>\<open>x === y\<close> on numbers: \<^verbatim>\<open>NaN\<close> equals nothing.\<close>

definition js_eq :: "jsnumber \<Rightarrow> jsnumber \<Rightarrow> bool" where
  "js_eq a b = (a \<noteq> NaN \<and> a = b)"

text \<open>Truthiness of a number: \<^verbatim>\<open>0\<close> and \<^verbatim>\<open>NaN\<close> are falsy.\<close>

definition truthy_num :: "jsnumber \<Rightarrow> bool" where
  "truthy_num n = (n \<noteq> NaN \<and> n \<noteq> Finite 0)"

text \<open>Truthiness of \<^verbatim>\<open>number | undefined\<close> and of \<^verbatim>\<open>string | null\<close>.\<close>

definition truthy_opt_num :: "jsnumber option \<Rightarrow> bool" where
  "truthy_opt_num n = (case n of None \<Rightarrow> False | Some v \<Rightarrow> truthy_num v)"

definition truthy_opt_str :: "string option \<Rightarrow> bool" where
  "truthy_opt_str s = (case s of None \<Rightarrow> False | Some v \<Rightarrow> v \<noteq> [])"

text \<open>Decimal rendering of a natural number, as a template literal prints it.\<close>

definition digit_char :: "nat \<Rightarrow> char" where
  "digit_char d = ''0123456789'' ! d"

function show_nat :: "nat \<Rightarrow> string" where
  "show_nat n = (if n < 10 then [digit_char n] else show_nat (n div 10) @ [digit_char (n mod 10)])"
  by pat_completeness auto
termination
  by (relation "measure id") auto

declare show_nat.simps [simp del]

text \<open>\<^verbatim>\<open>Array.prototype.join\<close> on an array of strings.\<close>

fun join :: "string \<Rightarrow> string list \<Rightarrow> string" where
  "join sep [] = []"
| "join sep [x] = x"
| "join sep (x # y # ys) = x @ sep @ join sep (y # ys)"

section \<open>Constants (lib/constants.ts)\<close>

definition MAX_FILE_SIZE :: nat where
  "MAX_FILE_SIZE = 10 * 1024 * 1024"

definition ALLOWED_MIME_TYPES :: "string list" where
  "ALLOWED_MIME_TYPES =
     [''image/jpeg'', ''image/jpg'', ''image/png'', ''image/webp'',
      ''image/avif'', ''image/tiff'', ''image/gif'', ''image/svg+xml'']"

definition MAX_FILENAME_LENGTH :: nat where
  "MAX_FILENAME_LENGTH = 255"

definition DEFAULT_QUALITY :: jsnumber where
  "DEFAULT_QUALITY = Finite 90"

definition FILE_TOO_LARGE :: string where
  "FILE_TOO_LARGE = ''File size exceeds '' @ show_nat (MAX_FILE_SIZE div (1024 * 1024)) @ ''MB limit''"

definition INVALID_FILE_TYPE :: string where
  "INVALID_FILE_TYPE = ''Invalid file type. Please upload an image file''"

definition NO_FILE_SELECTED :: string where
  "NO_FILE_SELECTED = ''Please select a file to convert''"

definition CONVERSION_FAILED :: string where
  "CONVERSION_FAILED = ''Failed to convert file. Please try again''"

definition INVALID_FORMAT :: string where
  "INVALID_FORMAT = ''Invalid target format selected''"

section \<open>Types (lib/types.ts)\<close>

type_synonym bytes = "nat list"

text \<open>
  The browser's \<^verbatim>\<open>File\<close>: its declared name, size and media type, and its content.
\<close>

record File =
  name :: string
  size :: nat
  type :: string
  content :: bytes

record ValidationResult =
  isValid :: bool
  error :: "string option"

definition valid :: ValidationResult where
  "valid = \<lparr>isValid = True, error = None\<rparr>"

definition invalid :: "string \<Rightarrow> ValidationResult" where
  "invalid msg = \<lparr>isValid = False, error = Some msg\<rparr>"

section \<open>Validation (lib/validation.ts)\<close>

text \<open>
  The character class \<^verbatim>\<open>[a-zA-Z0-9._-]\<close> of \<^verbatim>\<open>sanitizeFilename\<close>, written out.
\<close>

definition filename_char :: "char \<Rightarrow> bool" where
  "filename_char c =
     (c \<in> set ''abcdefghijklmnopqrstuvwxyzABCDEFGHIJKLMNOPQRSTUVWXYZ0123456789._-'')"

text \<open>\<^verbatim>\<open>.replace(/[^a-zA-Z0-9._-]/g, '_')\<close>\<close>

definition replace_special :: "string \<Rightarrow> string" where
  "replace_special s = map (\<lambda>c. if filename_char c then c else CHR ''_'') s"

text \<open>
  \<^verbatim>\<open>.replace(/\.{2,}/g, '.')\<close>: every maximal run of two or more dots becomes one dot.
  A dot followed by a dot is dropped, so the last dot of each run stays.
\<close>

fun collapse_dots :: "string \<Rightarrow> string" where
  "collapse_dots [] = []"
| "collapse_dots [c] = [c]"
| "collapse_dots (c # d # cs) =
     (if c = CHR ''.'' \<and> d = CHR ''.'' then collapse_dots (d # cs)
      else c # collapse_dots (d # cs))"

text \<open>\<^verbatim>\<open>.replace(/^\.+/, '')\<close>\<close>

definition strip_leading_dots :: "string \<Rightarrow> string" where
  "strip_leading_dots s = dropWhile (\<lambda>c. c = CHR ''.'') s"

definition sanitizeFilename :: "string \<Rightarrow> string" where
  "sanitizeFilename filename =
     take MAX_FILENAME_LENGTH (strip_leading_dots (collapse_dots (replace_special filename)))"

definition validateFile :: "File option \<Rightarrow> ValidationResult" where
  "validateFile file =
     (case file of
        None \<Rightarrow> invalid NO_FILE_SELECTED
      | Some f \<Rightarrow>
          if size f > MAX_FILE_SIZE then invalid FILE_TOO_LARGE
          else if size f = 0 then invalid ''File is empty''
          else if type f \<notin> set ALLOWED_MIME_TYPES then
            invalid (INVALID_FILE_TYPE @ ''. Allowed types: '' @ join '', '' ALLOWED_MIME_TYPES)
          else if length (name f) > MAX_FILENAME_LENGTH then
            invalid (''Filename too long. Maximum '' @ show_nat MAX_FILENAME_LENGTH
                     @ '' characters allowed'')
          else if sanitizeFilename (name f) \<noteq> name f then
            invalid ''Filename contains invalid characters''
          else valid)"

text \<open>
  \<^verbatim>\<open>validateQuality\<close>. The parameter has type \<^verbatim>\<open>number | undefined\<close>, so the test
  \<^verbatim>\<open>typeof quality !== 'number'\<close> is false for every present value.
\<close>

definition validateQuality :: "jsnumber option \<Rightarrow> ValidationResult" where
  "validateQuality quality =
     (case quality of
        None \<Rightarrow> valid
      | Some q \<Rightarrow>
          if js_lt q (Finite 1) \<or> js_gt q (Finite 100) then
            invalid ''Quality must be a number between 1 and 100''
          else valid)"

section \<open>The image library\<close>

text \<open>
  The \<^verbatim>\<open>sharp\<close> library is outside the repository. It is a parameter of the model: a
  record of the three kinds of call the source makes, each of which may throw. The
  handle type \<open>'img\<close> is the library's own.
  \<^item> \<open>sharp\<close>: the constructor \<^verbatim>\<open>sharp(inputBuffer)\<close>;
  \<^item> \<open>resize\<close>: \<^verbatim>\<open>image.resize(width, height, {fit, withoutEnlargement})\<close>;
  \<^item> \<open>toBuffer\<close>: one of \<^verbatim>\<open>image.jpeg({...}).toBuffer()\<close>, \<^verbatim>\<open>image.png({...}).toBuffer()\<close>, ...,
    the encoder and its settings given as an \<open>encoder\<close> value.
\<close>

text \<open>What a \<^verbatim>\<open>throw\<close> carries: an \<^verbatim>\<open>Error\<close> with its message, or any other value.\<close>

datatype thrown = Error string | NonError

datatype fit = cover | contain | fill | inside | outside

record resize_options =
  resize_fit :: fit
  withoutEnlargement :: bool

text \<open>
  The settings objects of the six encoders, fields in the order of the source:
  \<^item> \<open>jpeg\<close>: quality, progressive, mozjpeg;
  \<^item> \<open>png\<close>: compressionLevel, progressive, palette;
  \<^item> \<open>webp\<close>: quality, lossless, nearLossless, effort;
  \<^item> \<open>avif\<close>: quality, effort, chromaSubsampling;
  \<^item> \<open>tiff\<close>: quality, compression;
  \<^item> \<open>gif\<close>: colors.
\<close>

datatype encoder =
    jpeg jsnumber bool bool
  | png nat bool bool
  | webp jsnumber bool bool nat
  | avif jsnumber nat string
  | tiff jsnumber string
  | gif nat

record 'img sharp_lib =
  sharp :: "bytes \<Rightarrow> thrown + 'img"
  resize :: "'img \<Rightarrow> jsnumber option \<Rightarrow> jsnumber option \<Rightarrow> resize_options \<Rightarrow> thrown + 'img"
  toBuffer :: "'img \<Rightarrow> encoder \<Rightarrow> thrown + bytes"

text \<open>
  What the server does besides returning: calls into the library and lines written with
  \<^verbatim>\<open>console.error\<close>. Each function below returns its result together with the events it
  caused, in order.
\<close>

datatype event =
    Sharp_called bytes
  | Resize_called "jsnumber option" "jsnumber option" resize_options
  | Encode_called encoder
  | Console_error string thrown

section \<open>Conversion (lib/converter.ts)\<close>

type_synonym SupportedFormat = string

text \<open>
  The members of the type \<^verbatim>\<open>SupportedFormat\<close>. The type is erased at run time, where a
  format is whatever string the form carried.
\<close>

definition SupportedFormats :: "SupportedFormat list" where
  "SupportedFormats = [''jpeg'', ''jpg'', ''png'', ''webp'', ''avif'', ''tiff'', ''gif'']"

record ConversionOptions =
  format :: SupportedFormat
  quality :: "jsnumber option"
  width :: "jsnumber option"
  height :: "jsnumber option"
  fit :: "fit option"

text \<open>
  The \<^verbatim>\<open>switch (format)\<close> of \<^verbatim>\<open>convertImage\<close>: the encoder call of each case, or
  \<open>None\<close> for the \<^verbatim>\<open>default\<close> case.
\<close>

definition format_encoder :: "SupportedFormat \<Rightarrow> jsnumber \<Rightarrow> encoder option" where
  "format_encoder fmt q =
     (if fmt = ''jpeg'' \<or> fmt = ''jpg'' then Some (jpeg q True True)
      else if fmt = ''png'' then Some (png 9 True True)
      else if fmt = ''webp'' then Some (webp q (js_eq q (Finite 100)) (js_gt q (Finite 90)) 6)
      else if fmt = ''avif'' then Some (avif q 4 ''4:4:4'')
      else if fmt = ''tiff'' then Some (tiff q ''lzw'')
      else if fmt = ''gif'' then Some (gif 256)
      else None)"

text \<open>The body of the \<^verbatim>\<open>try\<close> block of \<^verbatim>\<open>convertImage\<close>.\<close>

definition convertImage_try ::
  "'img sharp_lib \<Rightarrow> bytes \<Rightarrow> ConversionOptions \<Rightarrow> (thrown + bytes) \<times> event list" where
  "convertImage_try lib inputBuffer options =
     (case sharp lib inputBuffer of
        Inl e \<Rightarrow> (Inl e, [Sharp_called inputBuffer])
      | Inr img0 \<Rightarrow>
          (let fmt = format options;
               q = (case quality options of None \<Rightarrow> DEFAULT_QUALITY | Some v \<Rightarrow> v);
               w = width options;
               h = height options;
               f = (case fit options of None \<Rightarrow> inside | Some v \<Rightarrow> v);
               ropts = \<lparr>resize_fit = f, withoutEnlargement = True\<rparr>;
               (resized, evs) =
                 (if truthy_opt_num w \<or> truthy_opt_num h
                  then (resize lib img0 w h ropts, [Sharp_called inputBuffer, Resize_called w h ropts])
                  else (Inr img0, [Sharp_called inputBuffer]))
           in case resized of
                Inl e \<Rightarrow> (Inl e, evs)
              | Inr img \<Rightarrow>
                  (case format_encoder fmt q of
                     Some enc \<Rightarrow> (toBuffer lib img enc, evs @ [Encode_called enc])
                   | None \<Rightarrow> (Inl (Error (''Unsupported format: '' @ fmt)), evs))))"

text \<open>
  \<^verbatim>\<open>convertImage\<close>: the \<^verbatim>\<open>catch\<close> logs whatever was thrown and throws a new
  \<^verbatim>\<open>Error\<close> whose message embeds the message of the caught one.
\<close>

definition convertImage ::
  "'img sharp_lib \<Rightarrow> bytes \<Rightarrow> ConversionOptions \<Rightarrow> (thrown + bytes) \<times> event list" where
  "convertImage lib inputBuffer options =
     (case convertImage_try lib inputBuffer options of
        (Inr out, evs) \<Rightarrow> (Inr out, evs)
      | (Inl err, evs) \<Rightarrow>
          (Inl (Error (''Failed to convert image: '' @
                       (case err of Error m \<Rightarrow> m | NonError \<Rightarrow> ''Unknown error''))),
           evs @ [Console_error ''Image conversion error:'' err]))"

text \<open>
  The two lookup tables, as association lists of their own keys, and the lookups
  \<^verbatim>\<open>table[format] || default\<close>.
\<close>

definition extensions :: "(SupportedFormat \<times> string) list" where
  "extensions =
     [(''jpeg'', ''.jpg''), (''jpg'', ''.jpg''), (''png'', ''.png''), (''webp'', ''.webp''),
      (''avif'', ''.avif''), (''tiff'', ''.tiff''), (''gif'', ''.gif'')]"

definition getFileExtension :: "SupportedFormat \<Rightarrow> string" where
  "getFileExtension fmt =
     (case map_of extensions fmt of
        Some e \<Rightarrow> if e = [] then ''.jpg'' else e
      | None \<Rightarrow> ''.jpg'')"

definition mimeTypes :: "(SupportedFormat \<times> string) list" where
  "mimeTypes =
     [(''jpeg'', ''image/jpeg''), (''jpg'', ''image/jpeg''), (''png'', ''image/png''),
      (''webp'', ''image/webp''), (''avif'', ''image/avif''), (''tiff'', ''image/tiff''),
      (''gif'', ''image/gif'')]"

definition getMimeType :: "SupportedFormat \<Rightarrow> string" where
  "getMimeType fmt =
     (case map_of mimeTypes fmt of
        Some m \<Rightarrow> if m = [] then ''image/jpeg'' else m
      | None \<Rightarrow> ''image/jpeg'')"

section \<open>The server action (app/actions/convert.ts)\<close>

text \<open>
  The Number value of a natural number: the nearest double, ties to the even significand
  of 53 bits; what rounds to \<open>2 ^ 1024\<close> or beyond is \<^verbatim>\<open>Infinity\<close>. A number below
  \<open>2 ^ 53\<close> is a double as it is.
\<close>

function bit_length :: "nat \<Rightarrow> nat" where
  "bit_length n = (if n = 0 then 0 else Suc (bit_length (n div 2)))"
  by pat_completeness auto
termination
  by (relation "measure id") auto

declare bit_length.simps [simp del]

definition to_double :: "nat \<Rightarrow> jsnumber" where
  "to_double n =
     (if n < 2 ^ 53 then Finite (of_nat n)
      else (let e = bit_length n - 53;
                q = n div 2 ^ e;
                r = n mod 2 ^ e;
                m = (if 2 ^ e < 2 * r \<or> (2 * r = 2 ^ e \<and> odd q) then q + 1 else q)
            in if 2 ^ 1024 \<le> m * 2 ^ e then PosInfinity else Finite (of_nat (m * 2 ^ e))))"

text \<open>Unary minus on numbers.\<close>

fun js_negate :: "jsnumber \<Rightarrow> jsnumber" where
  "js_negate (Finite q) = Finite (- q)"
| "js_negate NaN = NaN"
| "js_negate PosInfinity = NegInfinity"
| "js_negate NegInfinity = PosInfinity"

text \<open>
  \<^verbatim>\<open>parseInt(s, 10)\<close>: leading white space is skipped, then an optional sign, then the
  longest run of decimal digits; no digit gives \<^verbatim>\<open>NaN\<close>. The white space of a
  one-byte code unit is tab, line feed, vertical tab, form feed, carriage return, space
  and no-break space. The result is the Number value of the integer the digits denote,
  with the sign applied: exact up to \<open>2 ^ 53\<close>, rounded to a double beyond, and an
  infinity once the digits reach the overflow threshold. (The language lets an
  implementation read digits after the twentieth as zeros; the model rounds the exact
  integer, as the V8 engine of the deployment does.)
\<close>

definition isWhiteSpace :: "char \<Rightarrow> bool" where
  "isWhiteSpace c = (c \<in> set [CHR 0x09, CHR 0x0A, CHR 0x0B, CHR 0x0C, CHR 0x0D, CHR 0x20, CHR 0xA0])"

definition isDigit :: "char \<Rightarrow> bool" where
  "isDigit c = (c \<in> set ''0123456789'')"

definition digit_value :: "char \<Rightarrow> nat" where
  "digit_value c = of_char c - of_char CHR ''0''"

definition digits_value :: "string \<Rightarrow> nat" where
  "digits_value ds = foldl (\<lambda>acc c. 10 * acc + digit_value c) 0 ds"

definition parseInt :: "string \<Rightarrow> jsnumber" where
  "parseInt s =
     (let t = dropWhile isWhiteSpace s;
          (neg, u) = (case t of
                        c # r \<Rightarrow> if c = CHR ''-'' then (True, r)
                                 else if c = CHR ''+'' then (False, r) else (False, t)
                      | [] \<Rightarrow> (False, t));
          ds = takeWhile isDigit u
      in if ds = [] then NaN
         else if neg then js_negate (to_double (digits_value ds))
         else to_double (digits_value ds))"

text \<open>\<^verbatim>\<open>str ? parseInt(str, 10) : undefined\<close>\<close>

definition parse_optional :: "string option \<Rightarrow> jsnumber option" where
  "parse_optional str = (if truthy_opt_str str then map_option parseInt str else None)"

text \<open>\<^verbatim>\<open>String.prototype.split\<close> with a one-character separator.\<close>

fun split :: "char \<Rightarrow> string \<Rightarrow> string list" where
  "split sep [] = [[]]"
| "split sep (c # cs) =
     (if c = sep then [] # split sep cs
      else (case split sep cs of p # ps \<Rightarrow> (c # p) # ps | [] \<Rightarrow> [[c]]))"

text \<open>
  The fields \<^verbatim>\<open>convertFile\<close> reads from the form with \<^verbatim>\<open>formData.get\<close>, at the types its
  casts give them; \<open>None\<close> is \<^verbatim>\<open>null\<close>.
\<close>

record FormData =
  form_file :: "File option"
  form_targetFormat :: "string option"
  form_quality :: "string option"
  form_width :: "string option"
  form_height :: "string option"

record ConversionResponse =
  success :: bool
  data :: "bytes option"
  fileName :: "string option"
  mimeType :: "string option"
  error :: "string option"
  message :: "string option"

definition failure :: "string option \<Rightarrow> ConversionResponse" where
  "failure err =
     \<lparr>success = False, data = None, fileName = None, mimeType = None, error = err, message = None\<rparr>"

text \<open>
  \<^verbatim>\<open>convertFile\<close>. The three early returns cause no event. After them the file is
  present, since \<^verbatim>\<open>validateFile\<close> rejects \<^verbatim>\<open>null\<close>; the branch for an absent file
  stands for the \<^verbatim>\<open>TypeError\<close> that \<^verbatim>\<open>validFile.arrayBuffer()\<close> would throw and is
  never taken. Reading the content of a present file into a buffer does not fail.
\<close>

definition convertFile :: "'img sharp_lib \<Rightarrow> FormData \<Rightarrow> ConversionResponse \<times> event list" where
  "convertFile lib formData =
     (let file = form_file formData;
          targetFormat = form_targetFormat formData;
          q = parse_optional (form_quality formData);
          w = parse_optional (form_width formData);
          h = parse_optional (form_height formData);
          fileValidation = validateFile file;
          qualityValidation = validateQuality q
      in if \<not> isValid fileValidation then (failure (ValidationResult.error fileValidation), [])
         else if \<not> isValid qualityValidation then
           (failure (ValidationResult.error qualityValidation), [])
         else if \<not> truthy_opt_str targetFormat then (failure (Some INVALID_FORMAT), [])
         else
           (case (file, targetFormat) of
              (Some validFile, Some fmt) \<Rightarrow>
                (case convertImage lib (content validFile)
                        \<lparr>format = fmt, quality = q, width = w, height = h, fit = None\<rparr> of
                   (Inr outputBuffer, evs) \<Rightarrow>
                     (let originalName = (case split CHR ''.'' (name validFile) of
                                            p # ps \<Rightarrow> p | [] \<Rightarrow> []);
                          newExtension = getFileExtension fmt;
                          outputFileName = originalName @ newExtension
                      in (\<lparr>success = True, data = Some outputBuffer,
                           fileName = Some outputFileName, mimeType = Some (getMimeType fmt),
                           error = None, message = Some ''File converted successfully''\<rparr>,
                          evs))
                 | (Inl err, evs) \<Rightarrow>
                     (failure (Some (case err of Error m \<Rightarrow> m | NonError \<Rightarrow> CONVERSION_FAILED)),
                      evs @ [Console_error ''Conversion error in server action:'' err]))
            | _ \<Rightarrow>
                (failure (Some ''Cannot read properties of null''),
                 [Console_error ''Conversion error in server action:''
                    (Error ''Cannot read properties of null'')])))"

section \<open>Test doubles for the library\<close>

text \<open>
  Two stand-ins for the library, to run the model on concrete requests: one whose calls
  all succeed and whose encoders return the input bytes, and one whose encoders throw an
  \<^verbatim>\<open>Error\<close> with a given message.
\<close>

definition ok_lib :: "bytes sharp_lib" where
  "ok_lib = \<lparr>sharp = (\<lambda>b. Inr b), resize = (\<lambda>img w h opts. Inr img), toBuffer = (\<lambda>img enc. Inr img)\<rparr>"

definition failing_lib :: "string \<Rightarrow> bytes sharp_lib" where
  "failing_lib msg =
     \<lparr>sharp = (\<lambda>b. Inr b), resize = (\<lambda>img w h opts. Inr img),
      toBuffer = (\<lambda>img enc. Inl (Error msg))\<rparr>"

section \<open>Names and sample inputs used in the statements\<close>

text \<open>The message of the media-type rejection of \<^verbatim>\<open>validateFile\<close>.\<close>

definition UNSUPPORTED_MEDIA_TYPE :: string where
  "UNSUPPORTED_MEDIA_TYPE = INVALID_FILE_TYPE @ ''. Allowed types: '' @ join '', '' ALLOWED_MIME_TYPES"

definition boundary_file :: File where
  "boundary_file = \<lparr>name = ''photo.png'', size = 10485760, type = ''image/png'', content = []\<rparr>"

definition empty_text_file :: File where
  "empty_text_file = \<lparr>name = ''notes.txt'', size = 0, type = ''text/plain'', content = []\<rparr>"

text \<open>
  The canonical sanitized form of a filename, in the words of the specification: only
  characters of \<^verbatim>\<open>[A-Za-z0-9._-]\<close>, no repeated dots, no leading dot, and at most the
  maximal length.
\<close>

fun no_repeated_dots :: "string \<Rightarrow> bool" where
  "no_repeated_dots (c # d # cs) = (\<not> (c = CHR ''.'' \<and> d = CHR ''.'') \<and> no_repeated_dots (d # cs))"
| "no_repeated_dots _ = True"

definition no_leading_dot :: "string \<Rightarrow> bool" where
  "no_leading_dot s = (case s of [] \<Rightarrow> True | c # _ \<Rightarrow> c \<noteq> CHR ''.'')"

definition canonical :: "string \<Rightarrow> bool" where
  "canonical s =
     (list_all filename_char s \<and> no_repeated_dots s \<and> no_leading_dot s \<and>
      length s \<le> MAX_FILENAME_LENGTH)"

text \<open>
  The three checks \<^verbatim>\<open>convertFile\<close> makes before it calls \<^verbatim>\<open>convertImage\<close>, and the
  options object it then passes.
\<close>

definition passes_validation :: "FormData \<Rightarrow> bool" where
  "passes_validation formData =
     (isValid (validateFile (form_file formData)) \<and>
      isValid (validateQuality (parse_optional (form_quality formData))) \<and>
      truthy_opt_str (form_targetFormat formData))"

definition request_options :: "FormData \<Rightarrow> SupportedFormat \<Rightarrow> ConversionOptions" where
  "request_options formData fmt =
     \<lparr>format = fmt, quality = parse_optional (form_quality formData),
      width = parse_optional (form_width formData),
      height = parse_optional (form_height formData), fit = None\<rparr>"

text \<open>
  Stripping the extension in the words of the specification: everything up to but
  excluding the final dot; a name without a dot has no extension.
\<close>

definition strip_extension :: "string \<Rightarrow> string" where
  "strip_extension n =
     (if CHR ''.'' \<in> set n then rev (tl (dropWhile (\<lambda>c. c \<noteq> CHR ''.'') (rev n))) else n)"


definition sample_file :: File where
  "sample_file = \<lparr>name = ''my.photo.png'', size = 2048, type = ''image/png'', content = [137, 80, 78, 71]\<rparr>"

definition sample_request :: FormData where
  "sample_request = \<lparr>form_file = Some sample_file, form_targetFormat = Some ''webp'',
     form_quality = Some ''90'', form_width = None, form_height = None\<rparr>"

text \<open>The resize settings of a request that names no \<^verbatim>\<open>fit\<close>.\<close>

definition default_resize_options :: resize_options where
  "default_resize_options = \<lparr>resize_fit = inside, withoutEnlargement = True\<rparr>"

text \<open>Variants of the sample request.\<close>

definition bogus_request :: FormData where
  "bogus_request = sample_request\<lparr>form_targetFormat := Some ''bogus''\<rparr>"

definition oversized_request :: FormData where
  "oversized_request = sample_request\<lparr>form_width := Some ''20000''\<rparr>"

definition resize_request :: FormData where
  "resize_request = sample_request\<lparr>form_quality := None, form_width := Some ''800''\<rparr>"

definition out_of_range_request :: FormData where
  "out_of_range_request = sample_request\<lparr>form_quality := Some ''150''\<rparr>"

text \<open>
  The message of whatever was thrown, as both \<^verbatim>\<open>catch\<close> blocks read it, and the test
  \<^verbatim>\<open>width || height\<close> of \<^verbatim>\<open>convertImage\<close> on the dimensions of a request.
\<close>

definition thrown_message :: "thrown \<Rightarrow> string" where
  "thrown_message e = (case e of Error m \<Rightarrow> m | NonError \<Rightarrow> ''Unknown error'')"

definition wants_resize :: "FormData \<Rightarrow> bool" where
  "wants_resize formData =
     (truthy_opt_num (parse_optional (form_width formData)) \<or>
      truthy_opt_num (parse_optional (form_height formData)))"

text \<open>
  A stand-in for the library whose calls depend on their arguments: the constructor
  throws on an empty buffer, \<^verbatim>\<open>resize\<close> and the encoders throw unless the given test
  accepts their arguments. \<open>strict_lib\<close> refuses a width or height that is not above
  \<open>0\<close>; \<open>expecting_lib\<close> accepts exactly one \<^verbatim>\<open>resize\<close> call and one encoder.
\<close>

definition mock_lib ::
  "(jsnumber option \<Rightarrow> jsnumber option \<Rightarrow> resize_options \<Rightarrow> bool) \<Rightarrow> (encoder \<Rightarrow> bool) \<Rightarrow>
   bytes sharp_lib" where
  "mock_lib accepts_resize accepts_encoder =
     \<lparr>sharp = (\<lambda>b. if b = [] then Inl (Error ''Input Buffer is empty'') else Inr b),
      resize = (\<lambda>img w h ro. if accepts_resize w h ro then Inr img
                               else Inl (Error ''Invalid resize arguments'')),
      toBuffer = (\<lambda>img enc. if accepts_encoder enc then Inr img
                              else Inl (Error ''Invalid encoder settings''))\<rparr>"

definition positive_dimension :: "jsnumber option \<Rightarrow> bool" where
  "positive_dimension d = (case d of None \<Rightarrow> True | Some v \<Rightarrow> js_gt v (Finite 0))"

definition strict_lib :: "bytes sharp_lib" where
  "strict_lib = mock_lib (\<lambda>w h ro. positive_dimension w \<and> positive_dimension h) (\<lambda>enc. True)"


definition negative_width_request :: FormData where
  "negative_width_request = sample_request\<lparr>form_width := Some ''-5''\<rparr>"

section \<open>Properties\<close>

lemma FILE_TOO_LARGE_text: "FILE_TOO_LARGE = ''File size exceeds 10MB limit''"
  by (simp add: FILE_TOO_LARGE_def MAX_FILE_SIZE_def show_nat.simps digit_char_def)

text \<open>
  C10. A file whose declared size is exactly \<open>10 * 1024 * 1024\<close> bytes is not rejected as
  too large: the ceiling test is a strict \<open>>\<close>. Its verdict is never the
  \<^const>\<open>FILE_TOO_LARGE\<close> message, and with an allowed media type and a canonical name
  of legal length it is accepted.
\<close>

theorem validateFile_boundary_size:
  "size f = 10 * 1024 * 1024 \<Longrightarrow>
     ValidationResult.error (validateFile (Some f)) \<noteq> Some FILE_TOO_LARGE \<and>
     (type f \<in> set ALLOWED_MIME_TYPES \<and> length (name f) \<le> MAX_FILENAME_LENGTH \<and>
      sanitizeFilename (name f) = name f \<longrightarrow> validateFile (Some f) = valid)"
  by (auto simp: validateFile_def MAX_FILE_SIZE_def invalid_def valid_def FILE_TOO_LARGE_text
      INVALID_FILE_TYPE_def)


lemma sanitize_photo: "sanitizeFilename ''photo.png'' = ''photo.png''"
  by (simp add: sanitizeFilename_def replace_special_def filename_char_def strip_leading_dots_def
      MAX_FILENAME_LENGTH_def)

text \<open>C10, at a file of exactly the maximum size.\<close>

theorem validateFile_boundary_size_witness:
  "size boundary_file = 10 * 1024 * 1024 \<and>
   ValidationResult.error (validateFile (Some boundary_file)) \<noteq> Some FILE_TOO_LARGE \<and>
   validateFile (Some boundary_file) = valid"
proof -
  have sz: "size boundary_file = 10 * 1024 * 1024"
    by (simp add: boundary_file_def)
  have ok: "type boundary_file \<in> set ALLOWED_MIME_TYPES \<and>
            length (name boundary_file) \<le> MAX_FILENAME_LENGTH \<and>
            sanitizeFilename (name boundary_file) = name boundary_file"
    by (simp add: boundary_file_def ALLOWED_MIME_TYPES_def MAX_FILENAME_LENGTH_def sanitize_photo)
  from validateFile_boundary_size [OF sz] ok sz show ?thesis
    by blast
qed

subsection \<open>Quality\<close>

lemma validateQuality_Finite:
  "validateQuality (Some (Finite q)) =
     (if 1 \<le> q \<and> q \<le> 100 then valid else invalid ''Quality must be a number between 1 and 100'')"
  by (auto simp: validateQuality_def js_gt_def)

text \<open>
  C1 as stated fails: \<open>3.5\<close> lies strictly between two consecutive integers, and
  \<^verbatim>\<open>validateQuality\<close> accepts it.
\<close>

theorem validateQuality_fraction_accepted:
  "3 < (7 / 2 :: rat) \<and> (7 / 2 :: rat) < 4 \<and> validateQuality (Some (Finite (7 / 2))) = valid"
  by (simp add: validateQuality_def js_gt_def)

text \<open>
  C1, amended. \<^verbatim>\<open>validateQuality\<close> accepts an absent quality. A present finite value is
  accepted exactly when it lies in \<open>[1, 100]\<close>, whether or not it is an integer, and is
  rejected with the out-of-range message otherwise; so an integer is accepted exactly when
  it is one of \<open>1, ..., 100\<close>. Both infinities are rejected.
\<close>

theorem validateQuality_range:
  "validateQuality None = valid \<and>
   (\<forall>q. validateQuality (Some (Finite q)) =
          (if 1 \<le> q \<and> q \<le> 100 then valid
           else invalid ''Quality must be a number between 1 and 100'')) \<and>
   (\<forall>n::int. (1 \<le> n \<and> n \<le> 100) = (validateQuality (Some (Finite (of_int n))) = valid)) \<and>
   validateQuality (Some PosInfinity) = invalid ''Quality must be a number between 1 and 100'' \<and>
   validateQuality (Some NegInfinity) = invalid ''Quality must be a number between 1 and 100''"
  by (auto simp: validateQuality_def js_gt_def valid_def invalid_def)

text \<open>C1, amended, at \<open>0\<close>, \<open>101\<close>, \<open>-5\<close>, \<open>1\<close> and \<open>100\<close>.\<close>

theorem validateQuality_range_witness:
  "validateQuality (Some (Finite 0)) = invalid ''Quality must be a number between 1 and 100'' \<and>
   validateQuality (Some (Finite 101)) = invalid ''Quality must be a number between 1 and 100'' \<and>
   validateQuality (Some (Finite (- 5))) = invalid ''Quality must be a number between 1 and 100'' \<and>
   validateQuality (Some (Finite 1)) = valid \<and>
   validateQuality (Some (Finite 100)) = valid"
  using validateQuality_range by simp

text \<open>
  \<^verbatim>\<open>NaN\<close>, which \<^verbatim>\<open>parseInt\<close> returns for a quality field without a leading number, fails
  neither comparison and is accepted as well.
\<close>

lemma validateQuality_NaN: "validateQuality (Some NaN) = valid"
  by (simp add: validateQuality_def js_gt_def)

subsection \<open>Files\<close>

lemma UNSUPPORTED_MEDIA_TYPE_text:
  "UNSUPPORTED_MEDIA_TYPE = ''Invalid file type. Please upload an image file. Allowed types: image/jpeg, image/jpg, image/png, image/webp, image/avif, image/tiff, image/gif, image/svg+xml''"
  by (simp add: UNSUPPORTED_MEDIA_TYPE_def INVALID_FILE_TYPE_def ALLOWED_MIME_TYPES_def)

text \<open>
  C2 as stated fails: an empty file of a media type outside the allow-list is rejected as
  empty, not for its media type, because the size checks come first.
\<close>

theorem validateFile_empty_beats_media_type:
  "type empty_text_file \<notin> set ALLOWED_MIME_TYPES \<and>
   ValidationResult.error (validateFile (Some empty_text_file)) = Some ''File is empty'' \<and>
   ValidationResult.error (validateFile (Some empty_text_file)) \<noteq> Some UNSUPPORTED_MEDIA_TYPE"
  by (simp add: empty_text_file_def validateFile_def ALLOWED_MIME_TYPES_def MAX_FILE_SIZE_def
      invalid_def UNSUPPORTED_MEDIA_TYPE_text)

text \<open>
  C2, amended. For every file: a declared size above 10 MiB is rejected as too large and
  a declared size of 0 as empty, whatever the rest of the file; a media type outside the
  allow-list is always rejected, and with the media-type message when the size is nonzero
  and within the ceiling; a media type in the allow-list is never rejected with the
  media-type message. The allow-list is the eight listed types.
\<close>

theorem validateFile_size_and_media_type:
  "(size f > 10 * 1024 * 1024 \<longrightarrow> validateFile (Some f) = invalid FILE_TOO_LARGE) \<and>
   (size f = 0 \<longrightarrow> validateFile (Some f) = invalid ''File is empty'') \<and>
   (type f \<notin> set ALLOWED_MIME_TYPES \<longrightarrow> \<not> isValid (validateFile (Some f))) \<and>
   (type f \<notin> set ALLOWED_MIME_TYPES \<and> 0 < size f \<and> size f \<le> 10 * 1024 * 1024 \<longrightarrow>
      validateFile (Some f) = invalid UNSUPPORTED_MEDIA_TYPE) \<and>
   (type f \<in> set ALLOWED_MIME_TYPES \<longrightarrow>
      ValidationResult.error (validateFile (Some f)) \<noteq> Some UNSUPPORTED_MEDIA_TYPE) \<and>
   set ALLOWED_MIME_TYPES =
     {''image/jpeg'', ''image/jpg'', ''image/png'', ''image/webp'', ''image/avif'',
      ''image/tiff'', ''image/gif'', ''image/svg+xml''}"
proof -
  have distinct_msgs:
    "FILE_TOO_LARGE \<noteq> UNSUPPORTED_MEDIA_TYPE"
    "''File is empty'' \<noteq> UNSUPPORTED_MEDIA_TYPE"
    "''Filename too long. Maximum '' @ show_nat MAX_FILENAME_LENGTH @ '' characters allowed''
       \<noteq> UNSUPPORTED_MEDIA_TYPE"
    "''Filename contains invalid characters'' \<noteq> UNSUPPORTED_MEDIA_TYPE"
    by (simp_all add: FILE_TOO_LARGE_text UNSUPPORTED_MEDIA_TYPE_text)
  have "type f \<in> set ALLOWED_MIME_TYPES \<longrightarrow>
          ValidationResult.error (validateFile (Some f)) \<noteq> Some UNSUPPORTED_MEDIA_TYPE"
    using distinct_msgs
    by (simp add: validateFile_def invalid_def valid_def)
  moreover have "set ALLOWED_MIME_TYPES =
     {''image/jpeg'', ''image/jpg'', ''image/png'', ''image/webp'', ''image/avif'',
      ''image/tiff'', ''image/gif'', ''image/svg+xml''}"
    by (simp add: ALLOWED_MIME_TYPES_def)
  moreover have "size f > 10 * 1024 * 1024 \<longrightarrow> validateFile (Some f) = invalid FILE_TOO_LARGE"
    by (simp add: validateFile_def MAX_FILE_SIZE_def)
  moreover have "size f = 0 \<longrightarrow> validateFile (Some f) = invalid ''File is empty''"
    by (simp add: validateFile_def MAX_FILE_SIZE_def)
  moreover have "type f \<notin> set ALLOWED_MIME_TYPES \<longrightarrow> \<not> isValid (validateFile (Some f))"
    by (simp add: validateFile_def invalid_def)
  moreover have "type f \<notin> set ALLOWED_MIME_TYPES \<and> 0 < size f \<and> size f \<le> 10 * 1024 * 1024 \<longrightarrow>
      validateFile (Some f) = invalid UNSUPPORTED_MEDIA_TYPE"
    by (simp add: validateFile_def MAX_FILE_SIZE_def UNSUPPORTED_MEDIA_TYPE_def)
  ultimately show ?thesis by blast
qed

text \<open>C2, amended, at a 12 MiB file, an empty file, a text file and a valid PNG.\<close>

theorem validateFile_size_and_media_type_witness:
  "validateFile (Some (boundary_file\<lparr>size := 12 * 1024 * 1024\<rparr>)) = invalid FILE_TOO_LARGE \<and>
   validateFile (Some (boundary_file\<lparr>size := 0\<rparr>)) = invalid ''File is empty'' \<and>
   validateFile (Some (boundary_file\<lparr>type := ''text/plain''\<rparr>)) = invalid UNSUPPORTED_MEDIA_TYPE \<and>
   ValidationResult.error (validateFile (Some boundary_file)) \<noteq> Some UNSUPPORTED_MEDIA_TYPE"
  using validateFile_size_and_media_type [of "boundary_file\<lparr>size := 12 * 1024 * 1024\<rparr>"]
    validateFile_size_and_media_type [of "boundary_file\<lparr>size := 0\<rparr>"]
    validateFile_size_and_media_type [of "boundary_file\<lparr>type := ''text/plain''\<rparr>"]
    validateFile_size_and_media_type [of boundary_file]
  by (simp add: boundary_file_def ALLOWED_MIME_TYPES_def)



subsection \<open>Filename sanitization\<close>

lemma replace_special_chars: "list_all filename_char (replace_special s)"
  by (induction s) (simp_all add: replace_special_def filename_char_def)

lemma replace_special_id: "list_all filename_char s \<Longrightarrow> replace_special s = s"
  by (induction s) (simp_all add: replace_special_def)

lemma collapse_dots_chars: "list_all P s \<Longrightarrow> list_all P (collapse_dots s)"
  by (induction s rule: collapse_dots.induct) auto

lemma collapse_dots_hd: "\<exists>t. collapse_dots (c # s) = c # t"
  by (induction s arbitrary: c) auto

lemma collapse_dots_no_repeat: "no_repeated_dots (collapse_dots s)"
proof (induction s rule: collapse_dots.induct)
  case (3 c d cs)
  show ?case
  proof (cases "c = CHR ''.'' \<and> d = CHR ''.''")
    case True
    with 3 show ?thesis by simp
  next
    case False
    obtain t where "collapse_dots (d # cs) = d # t"
      using collapse_dots_hd by blast
    with 3 False show ?thesis by auto
  qed
qed simp_all

lemma collapse_dots_id: "no_repeated_dots s \<Longrightarrow> collapse_dots s = s"
  by (induction s rule: collapse_dots.induct) auto

lemma no_repeated_dots_tl: "no_repeated_dots (c # s) \<Longrightarrow> no_repeated_dots s"
  by (cases s) auto

lemma no_repeated_dots_dropWhile: "no_repeated_dots s \<Longrightarrow> no_repeated_dots (dropWhile P s)"
  by (induction s) (auto dest: no_repeated_dots_tl)

lemma no_repeated_dots_take: "no_repeated_dots s \<Longrightarrow> no_repeated_dots (take n s)"
proof (induction s arbitrary: n)
  case Nil
  then show ?case by simp
next
  case (Cons c s)
  show ?case
  proof (cases n)
    case 0
    then show ?thesis by simp
  next
    case (Suc m)
    have tl: "no_repeated_dots (take m s)"
      using Cons no_repeated_dots_tl by blast
    show ?thesis
    proof (cases "take m s")
      case Nil
      with Suc show ?thesis by auto
    next
      case (Cons d t)
      then obtain r where "s = d # r"
        by (cases s; cases m) auto
      with Cons Suc tl \<open>no_repeated_dots (c # s)\<close> show ?thesis by simp
    qed
  qed
qed

lemma no_repeated_dots_strip: "no_repeated_dots s \<Longrightarrow> no_repeated_dots (strip_leading_dots s)"
  by (simp add: strip_leading_dots_def no_repeated_dots_dropWhile)

lemma strip_leading_dots_no_leading: "no_leading_dot (strip_leading_dots s)"
  by (induction s) (auto simp: strip_leading_dots_def no_leading_dot_def)

lemma strip_leading_dots_id: "no_leading_dot s \<Longrightarrow> strip_leading_dots s = s"
  by (cases s) (auto simp: strip_leading_dots_def no_leading_dot_def)

lemma no_leading_dot_take: "no_leading_dot s \<Longrightarrow> no_leading_dot (take n s)"
  by (cases s; cases n) (auto simp: no_leading_dot_def)

lemma list_all_strip: "list_all P s \<Longrightarrow> list_all P (strip_leading_dots s)"
  by (induction s) (auto simp: strip_leading_dots_def)

lemma list_all_take: "list_all P s \<Longrightarrow> list_all P (take n s)"
  by (induction s arbitrary: n) (auto simp: take_Cons split: nat.splits)

lemma canonical_sanitizeFilename: "canonical (sanitizeFilename s)"
  unfolding canonical_def sanitizeFilename_def
  by (simp add: list_all_take list_all_strip collapse_dots_chars replace_special_chars
      no_repeated_dots_take no_repeated_dots_strip collapse_dots_no_repeat
      no_leading_dot_take strip_leading_dots_no_leading)

lemma sanitizeFilename_canonical: "canonical s \<Longrightarrow> sanitizeFilename s = s"
  unfolding canonical_def sanitizeFilename_def
  by (simp add: replace_special_id collapse_dots_id strip_leading_dots_id)

text \<open>
  C7. Sanitizing is idempotent for every filename, its result is always in canonical
  form, and a filename already in canonical form is returned unchanged; the canonical
  filenames are exactly the fixed points of \<^verbatim>\<open>sanitizeFilename\<close>.
\<close>

theorem sanitizeFilename_idempotent:
  "sanitizeFilename (sanitizeFilename n) = sanitizeFilename n \<and>
   canonical (sanitizeFilename n) \<and>
   (canonical n \<longrightarrow> sanitizeFilename n = n) \<and>
   (sanitizeFilename n = n \<longrightarrow> canonical n)"
  using canonical_sanitizeFilename [of n] sanitizeFilename_canonical
  by metis

text \<open>C7, at a canonical filename and at a path-traversal filename.\<close>

theorem sanitizeFilename_idempotent_witness:
  "canonical ''photo.png'' \<and> sanitizeFilename ''photo.png'' = ''photo.png'' \<and>
   sanitizeFilename ''../../etc/passwd.png'' = ''_._etc_passwd.png'' \<and>
   sanitizeFilename (sanitizeFilename ''../../etc/passwd.png'') = ''_._etc_passwd.png''"
proof -
  have c: "canonical ''photo.png''"
    by (simp add: canonical_def filename_char_def no_leading_dot_def MAX_FILENAME_LENGTH_def)
  have s: "sanitizeFilename ''../../etc/passwd.png'' = ''_._etc_passwd.png''"
    by (simp add: sanitizeFilename_def replace_special_def filename_char_def
        strip_leading_dots_def MAX_FILENAME_LENGTH_def)
  from sanitizeFilename_idempotent [of "''photo.png''"]
    sanitizeFilename_idempotent [of "''../../etc/passwd.png''"] c s
  show ?thesis by simp
qed



subsection \<open>Format tables\<close>

lemma getFileExtension_members:
  "getFileExtension ''jpeg'' = ''.jpg''" "getFileExtension ''jpg'' = ''.jpg''"
  "getFileExtension ''png'' = ''.png''" "getFileExtension ''webp'' = ''.webp''"
  "getFileExtension ''avif'' = ''.avif''" "getFileExtension ''tiff'' = ''.tiff''"
  "getFileExtension ''gif'' = ''.gif''"
  by (simp_all add: getFileExtension_def extensions_def)

lemma getMimeType_members:
  "getMimeType ''jpeg'' = ''image/jpeg''" "getMimeType ''jpg'' = ''image/jpeg''"
  "getMimeType ''png'' = ''image/png''" "getMimeType ''webp'' = ''image/webp''"
  "getMimeType ''avif'' = ''image/avif''" "getMimeType ''tiff'' = ''image/tiff''"
  "getMimeType ''gif'' = ''image/gif''"
  by (simp_all add: getMimeType_def mimeTypes_def)

text \<open>
  C8 as stated fails: the mappings are not one-to-one, since the two members \<open>jpeg\<close> and
  \<open>jpg\<close> share their extension and their MIME type.
\<close>

theorem format_tables_jpeg_alias:
  "''jpeg'' \<in> set SupportedFormats \<and> ''jpg'' \<in> set SupportedFormats \<and> ''jpeg'' \<noteq> ''jpg'' \<and>
   getFileExtension ''jpeg'' = getFileExtension ''jpg'' \<and>
   getMimeType ''jpeg'' = getMimeType ''jpg''"
  by (simp add: SupportedFormats_def getFileExtension_members getMimeType_members)

text \<open>
  C8, amended. Each table has exactly one entry for each member of the enumeration and
  no other, so both lookups are total on the members and never fall back to their
  default. Two members have the same extension, or the same MIME type, exactly when they
  are equal or are the two aliases \<open>jpeg\<close> and \<open>jpg\<close>.
\<close>

theorem format_tables_total:
  "map fst extensions = SupportedFormats \<and> map fst mimeTypes = SupportedFormats \<and>
   distinct SupportedFormats \<and>
   (\<forall>f \<in> set SupportedFormats.
      map_of extensions f = Some (getFileExtension f) \<and>
      map_of mimeTypes f = Some (getMimeType f)) \<and>
   (\<forall>f \<in> set SupportedFormats. \<forall>g \<in> set SupportedFormats.
      (getFileExtension f = getFileExtension g) = (f = g \<or> {f, g} = {''jpeg'', ''jpg''}) \<and>
      (getMimeType f = getMimeType g) = (f = g \<or> {f, g} = {''jpeg'', ''jpg''}))"
proof -
  have keys: "map fst extensions = SupportedFormats \<and> map fst mimeTypes = SupportedFormats \<and>
        distinct SupportedFormats"
    by (simp add: extensions_def mimeTypes_def SupportedFormats_def)
  have entries: "\<forall>f \<in> set SupportedFormats.
      map_of extensions f = Some (getFileExtension f) \<and>
      map_of mimeTypes f = Some (getMimeType f)"
    by (simp add: SupportedFormats_def getFileExtension_members getMimeType_members)
       (simp add: extensions_def mimeTypes_def)
  have inj: "\<forall>f \<in> set SupportedFormats. \<forall>g \<in> set SupportedFormats.
      (getFileExtension f = getFileExtension g) = (f = g \<or> {f, g} = {''jpeg'', ''jpg''}) \<and>
      (getMimeType f = getMimeType g) = (f = g \<or> {f, g} = {''jpeg'', ''jpg''})"
    by (simp add: SupportedFormats_def getFileExtension_members getMimeType_members doubleton_eq_iff)
  from keys entries inj show ?thesis by blast
qed

text \<open>C8, amended, at \<open>webp\<close> and \<open>png\<close>.\<close>

theorem format_tables_total_witness:
  "''webp'' \<in> set SupportedFormats \<and> ''png'' \<in> set SupportedFormats \<and>
   map_of extensions ''webp'' = Some ''.webp'' \<and> map_of mimeTypes ''webp'' = Some ''image/webp'' \<and>
   getFileExtension ''webp'' \<noteq> getFileExtension ''png'' \<and>
   getMimeType ''webp'' \<noteq> getMimeType ''png''"
proof -
  have m: "''webp'' \<in> set SupportedFormats" "''png'' \<in> set SupportedFormats"
    by (simp_all add: SupportedFormats_def)
  have ne: "''webp'' \<noteq> ''png''" "{''webp'', ''png''} \<noteq> {''jpeg'', ''jpg''}"
    by (simp_all add: doubleton_eq_iff)
  from format_tables_total m ne show ?thesis
    by (simp add: getFileExtension_members getMimeType_members)
qed



subsection \<open>The server action\<close>

lemma validateFile_None: "\<not> isValid (validateFile None)"
  by (simp add: validateFile_def invalid_def)

lemma convertFile_rejected:
  "\<not> passes_validation fd \<Longrightarrow>
     snd (convertFile lib fd) = [] \<and> \<not> success (fst (convertFile lib fd)) \<and>
     fst (convertFile lib fd) =
       (if \<not> isValid (validateFile (form_file fd))
        then failure (ValidationResult.error (validateFile (form_file fd)))
        else if \<not> isValid (validateQuality (parse_optional (form_quality fd)))
        then failure (ValidationResult.error (validateQuality (parse_optional (form_quality fd))))
        else failure (Some INVALID_FORMAT))"
  by (auto simp: passes_validation_def convertFile_def Let_def failure_def)

lemma passes_validation_fields:
  "passes_validation fd \<Longrightarrow>
     \<exists>f fmt. form_file fd = Some f \<and> form_targetFormat fd = Some fmt \<and> fmt \<noteq> []"
  by (cases "form_file fd"; cases "form_targetFormat fd")
     (auto simp: passes_validation_def validateFile_None truthy_opt_str_def)

lemma convertFile_accepted:
  assumes "passes_validation fd" "form_file fd = Some f" "form_targetFormat fd = Some fmt"
  shows "convertFile lib fd =
     (case convertImage lib (content f) (request_options fd fmt) of
        (Inr outputBuffer, evs) \<Rightarrow>
          (\<lparr>success = True, data = Some outputBuffer,
            fileName = Some ((case split CHR ''.'' (name f) of p # ps \<Rightarrow> p | [] \<Rightarrow> [])
                             @ getFileExtension fmt),
            mimeType = Some (getMimeType fmt), error = None,
            message = Some ''File converted successfully''\<rparr>, evs)
      | (Inl err, evs) \<Rightarrow>
          (failure (Some (case err of Error m \<Rightarrow> m | NonError \<Rightarrow> CONVERSION_FAILED)),
           evs @ [Console_error ''Conversion error in server action:'' err]))"
  using assms
  by (simp add: passes_validation_def convertFile_def Let_def request_options_def
      split: prod.splits sum.splits)

lemma split_first: "(case split sep s of p # ps \<Rightarrow> p | [] \<Rightarrow> []) = takeWhile (\<lambda>c. c \<noteq> sep) s"
  by (induction s) (auto split: list.splits)

lemma sample_passes: "passes_validation sample_request"
  by (simp add: passes_validation_def sample_request_def sample_file_def validateFile_def
      MAX_FILE_SIZE_def ALLOWED_MIME_TYPES_def MAX_FILENAME_LENGTH_def sanitizeFilename_def
      replace_special_def filename_char_def strip_leading_dots_def valid_def invalid_def
      parse_optional_def truthy_opt_str_def parseInt_def isWhiteSpace_def isDigit_def
      digits_value_def digit_value_def to_double_def validateQuality_def js_gt_def)



lemma sample_options:
  "request_options sample_request ''webp'' =
     \<lparr>format = ''webp'', quality = Some (Finite 90), width = None, height = None, fit = None\<rparr>"
  by (simp add: request_options_def sample_request_def parse_optional_def truthy_opt_str_def
      parseInt_def isWhiteSpace_def isDigit_def digits_value_def digit_value_def to_double_def)

lemma convertFile_fileName:
  assumes "success (fst (convertFile lib fd))"
  shows "\<exists>f fmt. form_file fd = Some f \<and> form_targetFormat fd = Some fmt \<and>
           fileName (fst (convertFile lib fd)) =
             Some (takeWhile (\<lambda>c. c \<noteq> CHR ''.'') (name f) @ getFileExtension fmt)"
proof -
  have pv: "passes_validation fd"
    using assms convertFile_rejected by blast
  then obtain f fmt where ff: "form_file fd = Some f" "form_targetFormat fd = Some fmt"
    using passes_validation_fields by blast
  from assms show ?thesis
    unfolding convertFile_accepted [OF pv ff]
    by (auto simp: ff split_first failure_def split: prod.splits sum.splits)
qed

lemma convertFile_engine_failure:
  assumes "passes_validation fd" "form_file fd = Some f" "form_targetFormat fd = Some fmt"
    and "convertImage_try lib (content f) (request_options fd fmt) = (Inl (Error m), evs)"
  shows "convertFile lib fd =
     (failure (Some (''Failed to convert image: '' @ m)),
      evs @ [Console_error ''Image conversion error:'' (Error m),
             Console_error ''Conversion error in server action:''
               (Error (''Failed to convert image: '' @ m))])"
  unfolding convertFile_accepted [OF assms(1-3)]
  by (simp add: convertImage_def assms(4))

text \<open>
  C3 fails on the code. A PNG named \<open>my.photo.png\<close> is converted to WebP with success, and
  the output filename is \<open>my.webp\<close>: \<^verbatim>\<open>split('.')[0]\<close> keeps what precedes the first
  dot. Stripping only the final extension gives \<open>my.photo.webp\<close>.
\<close>

theorem convertFile_multi_dot_name:
  "fst (convertFile ok_lib sample_request) =
     \<lparr>success = True, data = Some [137, 80, 78, 71], fileName = Some ''my.webp'',
      mimeType = Some ''image/webp'', error = None,
      message = Some ''File converted successfully''\<rparr> \<and>
   name sample_file = ''my.photo.png'' \<and>
   strip_extension (name sample_file) @ getFileExtension ''webp'' = ''my.photo.webp''"
proof -
  have ff: "form_file sample_request = Some sample_file"
      "form_targetFormat sample_request = Some ''webp''"
    by (simp_all add: sample_request_def)
  have img: "convertImage ok_lib (content sample_file) (request_options sample_request ''webp'')
        = (Inr [137, 80, 78, 71],
           [Sharp_called [137, 80, 78, 71], Encode_called (webp (Finite 90) False False 6)])"
    by (simp add: sample_options convertImage_def convertImage_try_def ok_lib_def sample_file_def
        truthy_opt_num_def format_encoder_def DEFAULT_QUALITY_def js_eq_def js_gt_def)
  have nm: "(case split CHR ''.'' (name sample_file) of p # ps \<Rightarrow> p | [] \<Rightarrow> []) = ''my''"
    by (simp add: sample_file_def)
  have ext: "strip_extension (name sample_file) = ''my.photo''"
    by (simp add: strip_extension_def sample_file_def)
  show ?thesis
    unfolding convertFile_accepted [OF sample_passes ff] img
    by (simp add: nm ext getFileExtension_members getMimeType_members) (simp add: sample_file_def)
qed

text \<open>
  C5 fails on the code. When the library throws, the response carries the library's own
  message behind the prefix \<open>Failed to convert image: \<close>; the same message is also
  written to the console, twice.
\<close>

theorem convertFile_exposes_engine_message:
  "convertFile (failing_lib ''Input buffer contains unsupported image format'') sample_request =
     (failure (Some ''Failed to convert image: Input buffer contains unsupported image format''),
      [Sharp_called [137, 80, 78, 71],
       Encode_called (webp (Finite 90) False False 6),
       Console_error ''Image conversion error:''
         (Error ''Input buffer contains unsupported image format''),
       Console_error ''Conversion error in server action:''
         (Error ''Failed to convert image: Input buffer contains unsupported image format'')])"
proof -
  have ff: "form_file sample_request = Some sample_file"
      "form_targetFormat sample_request = Some ''webp''"
    by (simp_all add: sample_request_def)
  have img: "convertImage_try (failing_lib ''Input buffer contains unsupported image format'')
          (content sample_file) (request_options sample_request ''webp'')
        = (Inl (Error ''Input buffer contains unsupported image format''),
           [Sharp_called [137, 80, 78, 71], Encode_called (webp (Finite 90) False False 6)])"
    by (simp add: sample_options convertImage_try_def failing_lib_def sample_file_def
        truthy_opt_num_def format_encoder_def DEFAULT_QUALITY_def js_eq_def js_gt_def)
  show ?thesis
    unfolding convertFile_engine_failure [OF sample_passes ff img]
    by simp
qed



subsection \<open>Calls into the library\<close>

lemma format_encoder_member: "(format_encoder fmt q = None) = (fmt \<notin> set SupportedFormats)"
  by (simp add: format_encoder_def SupportedFormats_def)

lemma convertImage_try_resize:
  "Resize_called w h ro \<in> set (snd (convertImage_try lib b opts)) \<Longrightarrow>
     w = width opts \<and> h = height opts \<and>
     ro = \<lparr>resize_fit = (case fit opts of None \<Rightarrow> inside | Some v \<Rightarrow> v), withoutEnlargement = True\<rparr>"
  by (auto simp: convertImage_try_def Let_def split: sum.splits option.splits if_splits)

lemma convertImage_try_encode:
  "Encode_called enc \<in> set (snd (convertImage_try lib b opts)) \<Longrightarrow>
     format_encoder (format opts)
       (case quality opts of None \<Rightarrow> DEFAULT_QUALITY | Some v \<Rightarrow> v) = Some enc"
  by (auto simp: convertImage_try_def Let_def split: sum.splits option.splits if_splits)

lemma convertImage_try_sharp:
  "Sharp_called (b::bytes) \<in> set (snd (convertImage_try lib b opts))"
  by (auto simp: convertImage_try_def Let_def split: sum.splits option.splits if_splits)

lemma convertImage_try_unsupported:
  "format opts \<notin> set SupportedFormats \<Longrightarrow> \<exists>e. fst (convertImage_try lib b opts) = Inl e"
proof -
  assume "format opts \<notin> set SupportedFormats"
  then have none: "\<And>q. format_encoder (format opts) q = None"
    by (simp add: format_encoder_member)
  show ?thesis
    by (simp add: convertImage_try_def Let_def none split: sum.splits prod.splits)
qed

lemma convertImage_events:
  "set (snd (convertImage lib b opts)) \<subseteq>
     set (snd (convertImage_try lib b opts)) \<union> {e. \<exists>s t. e = Console_error s t}"
  by (auto simp: convertImage_def split: prod.splits sum.splits)

lemma convertImage_events_sup:
  "set (snd (convertImage_try lib b opts)) \<subseteq> set (snd (convertImage lib b opts))"
  by (auto simp: convertImage_def split: prod.splits sum.splits)

lemma convertImage_fst:
  "fst (convertImage lib b opts) =
     (case fst (convertImage_try lib b opts) of
        Inr out \<Rightarrow> Inr out
      | Inl err \<Rightarrow> Inl (Error (''Failed to convert image: '' @
                       (case err of Error m \<Rightarrow> m | NonError \<Rightarrow> ''Unknown error''))))"
  by (auto simp: convertImage_def split: prod.splits sum.splits)

lemma convertFile_events:
  assumes "e \<in> set (snd (convertFile lib fd))" "\<forall>s t. e \<noteq> Console_error s t"
  shows "\<exists>f fmt. passes_validation fd \<and> form_file fd = Some f \<and> form_targetFormat fd = Some fmt \<and>
           e \<in> set (snd (convertImage_try lib (content f) (request_options fd fmt)))"
proof -
  have pv: "passes_validation fd"
  proof (rule ccontr)
    assume "\<not> passes_validation fd"
    then have "snd (convertFile lib fd) = []"
      using convertFile_rejected by blast
    with assms(1) show False by simp
  qed
  then obtain f fmt where ff: "form_file fd = Some f" "form_targetFormat fd = Some fmt"
    using passes_validation_fields by blast
  have "e \<in> set (snd (convertImage lib (content f) (request_options fd fmt)))"
    using assms unfolding convertFile_accepted [OF pv ff]
    by (auto split: prod.splits sum.splits)
  then have "e \<in> set (snd (convertImage_try lib (content f) (request_options fd fmt)))"
    using convertImage_events [of lib "content f" "request_options fd fmt"] assms(2) by auto
  with pv ff show ?thesis by blast
qed

lemma convertFile_events_sup:
  assumes "passes_validation fd" "form_file fd = Some f" "form_targetFormat fd = Some fmt"
  shows "set (snd (convertImage_try lib (content f) (request_options fd fmt)))
           \<subseteq> set (snd (convertFile lib fd))"
  using convertImage_events_sup [of lib "content f" "request_options fd fmt"]
  unfolding convertFile_accepted [OF assms]
  by (auto split: prod.splits sum.splits)

lemma convertFile_fst:
  assumes "passes_validation fd" "form_file fd = Some f" "form_targetFormat fd = Some fmt"
    and "fst (convertImage_try lib (content f) (request_options fd fmt)) = Inl err"
  shows "fst (convertFile lib fd) =
           failure (Some (''Failed to convert image: '' @
                       (case err of Error m \<Rightarrow> m | NonError \<Rightarrow> ''Unknown error'')))"
  unfolding convertFile_accepted [OF assms(1-3)]
  using convertImage_fst [of lib "content f" "request_options fd fmt"] assms(4)
  by (auto split: prod.splits sum.splits)

lemma bit_length_bounds: "0 < n \<Longrightarrow> 2 ^ (bit_length n - 1) \<le> n \<and> n < 2 ^ bit_length n"
proof (induction n rule: bit_length.induct)
  case (1 n)
  show ?case
  proof (cases "n div 2 = 0")
    case True
    with 1(2) have "n = 1" by (simp add: div_eq_0_iff)
    then show ?thesis by (simp add: bit_length.simps)
  next
    case False
    with 1 have ih: "2 ^ (bit_length (n div 2) - 1) \<le> n div 2" "n div 2 < 2 ^ bit_length (n div 2)"
      by auto
    have bl: "bit_length n = Suc (bit_length (n div 2))"
      using 1(2) by (subst bit_length.simps) simp
    have pos: "0 < bit_length (n div 2)"
      using False by (subst bit_length.simps) simp
    then obtain k where k: "bit_length (n div 2) = Suc k"
      by (cases "bit_length (n div 2)") auto
    from ih k show ?thesis
      unfolding bl by auto
  qed
qed

text \<open>Every natural number from \<open>2 ^ 1024\<close> on has the Number value \<^verbatim>\<open>Infinity\<close>.\<close>

lemma to_double_overflow: "2 ^ 1024 \<le> n \<Longrightarrow> to_double n = PosInfinity"
proof -
  assume big: "2 ^ 1024 \<le> n"
  then have pos: "0 < n"
    by (metis gr0I not_less_eq_eq le_0_eq power_not_zero zero_neq_numeral)
  let ?b = "bit_length n"
  from bit_length_bounds [OF pos] big have "(2::nat) ^ 1024 < 2 ^ ?b"
    by linarith
  then have b: "1024 < ?b"
    by (simp only: power_strict_increasing_iff one_less_numeral_iff semiring_norm)
  define e where "e = ?b - 53"
  have e: "972 \<le> e" "?b - 1 = e + 52"
    using b by (simp_all add: e_def)
  have "(2::nat) ^ 52 * 2 ^ e \<le> n"
    using bit_length_bounds [OF pos] e(2) by (simp add: power_add mult.commute)
  then have q: "2 ^ 52 \<le> n div 2 ^ e"
    by (simp add: less_eq_div_iff_mult_less_eq)
  have "(2::nat) ^ 1024 \<le> 2 ^ 52 * 2 ^ e"
  proof -
    have "(2::nat) ^ 1024 = 2 ^ 52 * 2 ^ 972"
      by (simp add: power_add [symmetric])
    also have "\<dots> \<le> 2 ^ 52 * 2 ^ e"
      using e(1) by (simp only: mult_le_cancel1 power_increasing_iff) simp
    finally show ?thesis .
  qed
  also have "\<dots> \<le> (n div 2 ^ e) * 2 ^ e"
    using q by (rule mult_le_mono1)
  finally have lo: "2 ^ 1024 \<le> (n div 2 ^ e) * 2 ^ e" .
  then have hi: "2 ^ 1024 \<le> (n div 2 ^ e + 1) * 2 ^ e"
    by (metis add_mult_distrib trans_le_add1)
  have nb: "\<not> n < 2 ^ 53"
  proof
    assume "n < 2 ^ 53"
    with big have "(2::nat) ^ 1024 < 2 ^ 53" by linarith
    then show False by simp
  qed
  show ?thesis
    using lo hi nb unfolding to_double_def Let_def e_def [symmetric]
    by (simp only: if_False if_True split: if_splits) auto
qed

text \<open>Rounding just above \<open>2 ^ 53\<close>: a tie goes to the even neighbour.\<close>

lemma to_double_samples:
  "to_double 9007199254740993 = Finite 9007199254740992"
  "to_double 9007199254740995 = Finite 9007199254740996"
  by (simp_all add: to_double_def bit_length.simps Let_def)

lemma to_double_range:
  "to_double n = PosInfinity \<or> (\<exists>k::int. 0 \<le> k \<and> to_double n = Finite (of_int k))"
proof -
  have key: "\<And>m::nat. \<exists>k::int. 0 \<le> k \<and> Finite (of_nat m) = Finite (of_int k)"
    by (metis of_int_of_nat_eq of_nat_0_le_iff)
  show ?thesis
  proof (cases "n < 2 ^ 53")
    case True
    then have "to_double n = Finite (of_nat n)"
      by (simp only: to_double_def if_True)
    with key show ?thesis by simp
  next
    case False
    define e where "e = bit_length n - 53"
    define m where "m = (if 2 ^ e < 2 * (n mod 2 ^ e) \<or>
        (2 * (n mod 2 ^ e) = 2 ^ e \<and> odd (n div 2 ^ e)) then n div 2 ^ e + 1 else n div 2 ^ e)"
    have eq: "to_double n = (if 2 ^ 1024 \<le> m * 2 ^ e then PosInfinity else Finite (of_nat (m * 2 ^ e)))"
      using False by (simp only: to_double_def Let_def m_def e_def if_False)
    show ?thesis
    proof (cases "2 ^ 1024 \<le> m * 2 ^ e")
      case True
      with eq have "to_double n = PosInfinity"
        by (simp only: if_True)
      then show ?thesis by blast
    next
      case False
      with eq have "to_double n = Finite (of_nat (m * 2 ^ e))"
        by (simp only: if_False)
      with key [of "m * 2 ^ e"] show ?thesis
        by metis
    qed
  qed
qed

text \<open>
  What \<^verbatim>\<open>parseInt\<close> returns: \<^verbatim>\<open>NaN\<close>, an infinity, or a number with an integer value.
\<close>

lemma parseInt_integer:
  "parseInt s = NaN \<or> parseInt s = PosInfinity \<or> parseInt s = NegInfinity \<or>
   (\<exists>n::int. parseInt s = Finite (of_int n))"
proof -
  have neg: "\<And>n. js_negate (to_double n) = NegInfinity \<or>
      (\<exists>k::int. js_negate (to_double n) = Finite (of_int k))"
  proof -
    fix n
    from to_double_range [of n] show "js_negate (to_double n) = NegInfinity \<or>
      (\<exists>k::int. js_negate (to_double n) = Finite (of_int k))"
      by (metis js_negate.simps(1,3) of_int_minus)
  qed
  have pos: "\<And>n. to_double n = PosInfinity \<or> (\<exists>k::int. to_double n = Finite (of_int k))"
    using to_double_range by blast
  show ?thesis
    using neg pos by (auto simp: parseInt_def Let_def split: prod.splits)
qed

lemma bogus_passes: "passes_validation bogus_request"
  using sample_passes
  by (simp add: passes_validation_def bogus_request_def sample_request_def truthy_opt_str_def)

lemma oversized_passes: "passes_validation oversized_request"
  using sample_passes
  by (simp add: passes_validation_def oversized_request_def sample_request_def)

subsection \<open>What the calls into the library decide\<close>

lemma convertImage_try_sharp_throws:
  "sharp lib b = Inl e \<Longrightarrow> convertImage_try lib b opts = (Inl e, [Sharp_called b])"
  by (simp add: convertImage_try_def)

lemma convertImage_try_resize_throws:
  "sharp lib b = Inr i \<Longrightarrow> truthy_opt_num (width opts) \<or> truthy_opt_num (height opts) \<Longrightarrow>
   resize lib i (width opts) (height opts)
     \<lparr>resize_fit = (case fit opts of None \<Rightarrow> inside | Some v \<Rightarrow> v), withoutEnlargement = True\<rparr>
     = Inl e \<Longrightarrow>
   fst (convertImage_try lib b opts) = Inl e"
  by (auto simp: convertImage_try_def Let_def)

lemma convertImage_try_run:
  assumes "sharp lib b = Inr i"
    and "if truthy_opt_num (width opts) \<or> truthy_opt_num (height opts)
         then resize lib i (width opts) (height opts)
                \<lparr>resize_fit = (case fit opts of None \<Rightarrow> inside | Some v \<Rightarrow> v),
                 withoutEnlargement = True\<rparr> = Inr j
         else j = i"
  shows "fst (convertImage_try lib b opts) =
     (case format_encoder (format opts)
             (case quality opts of None \<Rightarrow> DEFAULT_QUALITY | Some v \<Rightarrow> v) of
        Some enc \<Rightarrow> toBuffer lib j enc
      | None \<Rightarrow> Inl (Error (''Unsupported format: '' @ format opts)))"
  using assms
  by (auto simp: convertImage_try_def Let_def split: option.splits if_splits)

lemma convertFile_fst_ok:
  assumes "passes_validation fd" "form_file fd = Some f" "form_targetFormat fd = Some fmt"
    and "fst (convertImage_try lib (content f) (request_options fd fmt)) = Inr out"
  shows "success (fst (convertFile lib fd)) \<and> data (fst (convertFile lib fd)) = Some out"
  unfolding convertFile_accepted [OF assms(1-3)]
  using convertImage_fst [of lib "content f" "request_options fd fmt"] assms(4)
  by (auto split: prod.splits sum.splits)

lemma convertFile_fst_thrown:
  assumes "passes_validation fd" "form_file fd = Some f" "form_targetFormat fd = Some fmt"
    and "fst (convertImage_try lib (content f) (request_options fd fmt)) = Inl err"
  shows "fst (convertFile lib fd) =
           failure (Some (''Failed to convert image: '' @ thrown_message err))"
  using convertFile_fst [OF assms] by (simp add: thrown_message_def)

text \<open>What the calls of a request that passed the checks decide.\<close>

lemma convertFile_sharp_throws:
  assumes "passes_validation fd" "form_file fd = Some f" "sharp lib (content f) = Inl e"
  shows "fst (convertFile lib fd) = failure (Some (''Failed to convert image: '' @ thrown_message e))"
proof -
  obtain fmt where tf: "form_targetFormat fd = Some fmt"
    using assms(1) passes_validation_fields by blast
  have "fst (convertImage_try lib (content f) (request_options fd fmt)) = Inl e"
    by (simp add: convertImage_try_sharp_throws [OF assms(3)])
  from convertFile_fst_thrown [OF assms(1,2) tf this] show ?thesis .
qed

lemma convertFile_resize_throws:
  assumes "passes_validation fd" "form_file fd = Some f" "sharp lib (content f) = Inr i"
    and "wants_resize fd"
    and "resize lib i (parse_optional (form_width fd)) (parse_optional (form_height fd))
           default_resize_options = Inl e"
  shows "fst (convertFile lib fd) = failure (Some (''Failed to convert image: '' @ thrown_message e))"
proof -
  obtain fmt where tf: "form_targetFormat fd = Some fmt"
    using assms(1) passes_validation_fields by blast
  have "fst (convertImage_try lib (content f) (request_options fd fmt)) = Inl e"
    using assms(4,5)
    by (intro convertImage_try_resize_throws [OF assms(3)])
       (simp_all add: request_options_def wants_resize_def default_resize_options_def)
  from convertFile_fst_thrown [OF assms(1,2) tf this] show ?thesis .
qed

lemma convertFile_run:
  assumes "passes_validation fd" "form_file fd = Some f" "form_targetFormat fd = Some fmt"
    and "sharp lib (content f) = Inr i"
    and "if wants_resize fd
         then resize lib i (parse_optional (form_width fd)) (parse_optional (form_height fd))
                default_resize_options = Inr j
         else j = i"
  shows "fst (convertImage_try lib (content f) (request_options fd fmt)) =
     (case format_encoder fmt
             (case parse_optional (form_quality fd) of None \<Rightarrow> DEFAULT_QUALITY | Some v \<Rightarrow> v) of
        Some enc \<Rightarrow> toBuffer lib j enc
      | None \<Rightarrow> Inl (Error (''Unsupported format: '' @ fmt)))"
proof -
  have "if truthy_opt_num (width (request_options fd fmt)) \<or>
           truthy_opt_num (height (request_options fd fmt))
         then resize lib i (width (request_options fd fmt)) (height (request_options fd fmt))
                \<lparr>resize_fit = (case fit (request_options fd fmt) of None \<Rightarrow> inside | Some v \<Rightarrow> v),
                 withoutEnlargement = True\<rparr> = Inr j
         else j = i"
    using assms(5)
    by (auto simp: request_options_def wants_resize_def default_resize_options_def
        split: if_splits)
  from convertImage_try_run [OF assms(4) this] show ?thesis
    by (simp add: request_options_def split: option.splits)
qed

lemma negative_width_passes: "passes_validation negative_width_request"
  using sample_passes
  by (simp add: passes_validation_def negative_width_request_def sample_request_def)

lemma mock_lib_calls:
  "sharp (mock_lib ar ae) (content sample_file) = Inr (content sample_file)"
  "resize (mock_lib ar ae) img w h ro =
     (if ar w h ro then Inr img else Inl (Error ''Invalid resize arguments''))"
  "toBuffer (mock_lib ar ae) img enc =
     (if ae enc then Inr img else Inl (Error ''Invalid encoder settings''))"
  by (simp_all add: mock_lib_def sample_file_def)

lemma parseInt_samples:
  "parseInt ''20000'' = Finite 20000" "parseInt ''800'' = Finite 800"
  "parseInt ''150'' = Finite 150" "parseInt ''-5'' = Finite (- 5)"
  by (simp_all add: parseInt_def isWhiteSpace_def isDigit_def digits_value_def digit_value_def
      to_double_def)

lemma sample_dimensions:
  "parse_optional (form_width bogus_request) = None"
  "parse_optional (form_height bogus_request) = None"
  "parse_optional (form_width negative_width_request) = Some (Finite (- 5))"
  "parse_optional (form_height negative_width_request) = None"
  "parse_optional (form_width oversized_request) = Some (Finite 20000)"
  "parse_optional (form_height oversized_request) = None"
  "parse_optional (form_width resize_request) = Some (Finite 800)"
  "parse_optional (form_height resize_request) = None"
  by (simp_all add: bogus_request_def negative_width_request_def oversized_request_def
      resize_request_def sample_request_def parse_optional_def truthy_opt_str_def parseInt_samples)

lemma sample_wants_resize:
  "\<not> wants_resize bogus_request" "wants_resize negative_width_request"
  "wants_resize oversized_request" "wants_resize resize_request"
  by (simp_all add: wants_resize_def sample_dimensions truthy_opt_num_def truthy_num_def)

lemma sample_files:
  "form_file bogus_request = Some sample_file"
  "form_file negative_width_request = Some sample_file"
  "form_file oversized_request = Some sample_file"
  "form_file resize_request = Some sample_file"
  "form_targetFormat negative_width_request = Some ''webp''"
  "form_targetFormat oversized_request = Some ''webp''"
  "form_targetFormat resize_request = Some ''webp''"
  by (simp_all add: bogus_request_def negative_width_request_def oversized_request_def
      resize_request_def sample_request_def)

lemma sample_quality:
  "parse_optional (form_quality oversized_request) = Some (Finite 90)"
  "parse_optional (form_quality resize_request) = None"
  "\<not> truthy_opt_str (form_quality resize_request)"
  using sample_options
  by (simp_all add: oversized_request_def resize_request_def request_options_def
      parse_optional_def truthy_opt_str_def)

lemma webp_encoders:
  "format_encoder ''webp'' (Finite 90) = Some (webp (Finite 90) False False 6)"
  by (simp add: format_encoder_def js_eq_def js_gt_def)


subsection \<open>Unknown target formats\<close>

text \<open>
  C4 as stated fails: for the target format \<open>bogus\<close>, which is not a member of the
  enumeration, \<^verbatim>\<open>convertFile\<close> calls \<^verbatim>\<open>convertImage\<close>, whose first statement is the call
  \<^verbatim>\<open>sharp(inputBuffer)\<close> into the library; the format is only looked at afterwards.
\<close>

theorem convertFile_bogus_reaches_library:
  "form_targetFormat bogus_request = Some ''bogus'' \<and> ''bogus'' \<notin> set SupportedFormats \<and>
   Sharp_called [137, 80, 78, 71] \<in> set (snd (convertFile ok_lib bogus_request))"
proof -
  have ff: "form_file bogus_request = Some sample_file"
      "form_targetFormat bogus_request = Some ''bogus''"
    by (simp_all add: bogus_request_def sample_request_def)
  have "Sharp_called (content sample_file) \<in> set (snd (convertFile ok_lib bogus_request))"
    using convertFile_events_sup [OF bogus_passes ff] convertImage_try_sharp by blast
  then show ?thesis
    by (simp add: ff SupportedFormats_def sample_file_def)
qed

text \<open>
  C4, amended. For every request whose target format is not a member of the enumeration,
  and every behaviour of the library: the response is a failure, and no encoder is ever
  run. If the file and the quality are valid and the target format is absent or empty,
  \<^verbatim>\<open>convertFile\<close> itself rejects the request with \<^const>\<open>INVALID_FORMAT\<close>, without any call
  into the library. If the request passes the three checks (the target format is then a
  non-empty unknown name), the constructor is called on the content of the file and,
  when a width or height is wanted, \<^verbatim>\<open>resize\<close> on the parsed dimensions: if these calls
  return, the failure is the \<open>Unsupported format\<close> error of the \<^verbatim>\<open>default\<close> case of
  \<^verbatim>\<open>convertImage\<close>; if one of them throws, the failure carries its message instead.
\<close>

theorem convertFile_unknown_format:
  assumes "\<forall>fmt \<in> set SupportedFormats. form_targetFormat fd \<noteq> Some fmt"
  shows "\<not> success (fst (convertFile lib fd)) \<and>
     (\<forall>enc. Encode_called enc \<notin> set (snd (convertFile lib fd))) \<and>
     (isValid (validateFile (form_file fd)) \<and>
      isValid (validateQuality (parse_optional (form_quality fd))) \<and>
      \<not> truthy_opt_str (form_targetFormat fd) \<longrightarrow>
        convertFile lib fd = (failure (Some INVALID_FORMAT), [])) \<and>
     (\<forall>f i. passes_validation fd \<and> form_file fd = Some f \<and> sharp lib (content f) = Inr i \<and>
        (wants_resize fd \<longrightarrow>
           (\<exists>j. resize lib i (parse_optional (form_width fd)) (parse_optional (form_height fd))
                  default_resize_options = Inr j)) \<longrightarrow>
        (\<exists>fmt. form_targetFormat fd = Some fmt \<and>
           fst (convertFile lib fd) =
             failure (Some (''Failed to convert image: Unsupported format: '' @ fmt)))) \<and>
     (\<forall>f e. passes_validation fd \<and> form_file fd = Some f \<and> sharp lib (content f) = Inl e \<longrightarrow>
        fst (convertFile lib fd) =
          failure (Some (''Failed to convert image: '' @ thrown_message e))) \<and>
     (\<forall>f i e. passes_validation fd \<and> form_file fd = Some f \<and> sharp lib (content f) = Inr i \<and>
        wants_resize fd \<and>
        resize lib i (parse_optional (form_width fd)) (parse_optional (form_height fd))
          default_resize_options = Inl e \<longrightarrow>
        fst (convertFile lib fd) =
          failure (Some (''Failed to convert image: '' @ thrown_message e)))"
proof -
  have fail: "\<not> success (fst (convertFile lib fd))"
  proof (cases "passes_validation fd")
    case False
    then show ?thesis using convertFile_rejected by blast
  next
    case True
    then obtain f fmt where ff: "form_file fd = Some f" "form_targetFormat fd = Some fmt"
      using passes_validation_fields by blast
    with assms have "format (request_options fd fmt) \<notin> set SupportedFormats"
      by (auto simp: request_options_def)
    then obtain e where "fst (convertImage_try lib (content f) (request_options fd fmt)) = Inl e"
      using convertImage_try_unsupported by blast
    from convertFile_fst [OF True ff this] show ?thesis
      by (simp add: failure_def)
  qed
  have noenc: "\<forall>enc. Encode_called enc \<notin> set (snd (convertFile lib fd))"
  proof (intro allI notI)
    fix enc assume ev: "Encode_called enc \<in> set (snd (convertFile lib fd))"
    have "\<forall>s t. Encode_called enc \<noteq> Console_error s t"
      by simp
    from convertFile_events [OF ev this]
    obtain f :: File and fmt where ff: "form_targetFormat fd = Some fmt"
      and "Encode_called enc \<in> set (snd (convertImage_try lib (content f) (request_options fd fmt)))"
      by blast
    then have "format_encoder fmt
        (case quality (request_options fd fmt) of None \<Rightarrow> DEFAULT_QUALITY | Some v \<Rightarrow> v) = Some enc"
      using convertImage_try_encode [of enc lib "content f" "request_options fd fmt"]
      by (simp add: request_options_def)
    then have "fmt \<in> set SupportedFormats"
      using format_encoder_member by (metis option.distinct(1))
    with assms ff show False by blast
  qed
  have early: "isValid (validateFile (form_file fd)) \<and>
      isValid (validateQuality (parse_optional (form_quality fd))) \<and>
      \<not> truthy_opt_str (form_targetFormat fd) \<longrightarrow>
        convertFile lib fd = (failure (Some INVALID_FORMAT), [])"
    by (simp add: convertFile_def Let_def)
  have late: "\<forall>f i. passes_validation fd \<and> form_file fd = Some f \<and> sharp lib (content f) = Inr i \<and>
        (wants_resize fd \<longrightarrow>
           (\<exists>j. resize lib i (parse_optional (form_width fd)) (parse_optional (form_height fd))
                  default_resize_options = Inr j)) \<longrightarrow>
        (\<exists>fmt. form_targetFormat fd = Some fmt \<and>
           fst (convertFile lib fd) =
             failure (Some (''Failed to convert image: Unsupported format: '' @ fmt)))"
  proof (intro allI impI, elim conjE)
    fix f i
    assume pv: "passes_validation fd" and ff: "form_file fd = Some f"
      and sh: "sharp lib (content f) = Inr i"
      and rs: "wants_resize fd \<longrightarrow>
           (\<exists>j. resize lib i (parse_optional (form_width fd)) (parse_optional (form_height fd))
                  default_resize_options = Inr j)"
    obtain fmt where tf: "form_targetFormat fd = Some fmt"
      using pv passes_validation_fields by blast
    with assms have nm: "fmt \<notin> set SupportedFormats"
      by auto
    obtain j where j: "if wants_resize fd
         then resize lib i (parse_optional (form_width fd)) (parse_optional (form_height fd))
                default_resize_options = Inr j
         else j = i"
      using rs by (cases "wants_resize fd") auto
    have none: "\<And>q. format_encoder fmt q = None"
      using nm by (simp add: format_encoder_member)
    from convertFile_run [OF pv ff tf sh j]
    have "fst (convertImage_try lib (content f) (request_options fd fmt))
            = Inl (Error (''Unsupported format: '' @ fmt))"
      by (simp add: none)
    from convertFile_fst [OF pv ff tf this] tf show "\<exists>fmt. form_targetFormat fd = Some fmt \<and>
           fst (convertFile lib fd) =
             failure (Some (''Failed to convert image: Unsupported format: '' @ fmt))"
      by simp
  qed
  have thr1: "\<forall>f e. passes_validation fd \<and> form_file fd = Some f \<and> sharp lib (content f) = Inl e \<longrightarrow>
        fst (convertFile lib fd) =
          failure (Some (''Failed to convert image: '' @ thrown_message e))"
  proof (intro allI impI, elim conjE)
    fix f e
    assume "passes_validation fd" "form_file fd = Some f" "sharp lib (content f) = Inl e"
    then show "fst (convertFile lib fd) =
          failure (Some (''Failed to convert image: '' @ thrown_message e))"
      by (rule convertFile_sharp_throws)
  qed
  have thr2: "\<forall>f i e. passes_validation fd \<and> form_file fd = Some f \<and> sharp lib (content f) = Inr i \<and>
        wants_resize fd \<and>
        resize lib i (parse_optional (form_width fd)) (parse_optional (form_height fd))
          default_resize_options = Inl e \<longrightarrow>
        fst (convertFile lib fd) =
          failure (Some (''Failed to convert image: '' @ thrown_message e))"
  proof (intro allI impI, elim conjE)
    fix f i e
    assume "passes_validation fd" "form_file fd = Some f" "sharp lib (content f) = Inr i"
      "wants_resize fd"
      "resize lib i (parse_optional (form_width fd)) (parse_optional (form_height fd))
          default_resize_options = Inl e"
    then show "fst (convertFile lib fd) =
          failure (Some (''Failed to convert image: '' @ thrown_message e))"
      by (rule convertFile_resize_throws)
  qed
  show ?thesis
    using fail noenc early late thr1 thr2 by - (intro conjI; assumption)
qed

text \<open>
  C4, amended, at the target format \<open>bogus\<close> and a library that throws on an empty buffer
  and on a width or height that is not positive.
\<close>

theorem convertFile_unknown_format_witness:
  "form_targetFormat bogus_request = Some ''bogus'' \<and> ''bogus'' \<notin> set SupportedFormats \<and>
   sharp strict_lib [] = Inl (Error ''Input Buffer is empty'') \<and>
   fst (convertFile strict_lib bogus_request) =
     failure (Some ''Failed to convert image: Unsupported format: bogus'') \<and>
   (\<forall>enc. Encode_called enc \<notin> set (snd (convertFile strict_lib bogus_request)))"
proof -
  have nm: "\<forall>fmt \<in> set SupportedFormats. form_targetFormat bogus_request \<noteq> Some fmt"
    by (simp add: bogus_request_def SupportedFormats_def)
  have tf: "form_targetFormat bogus_request = Some ''bogus''"
    by (simp add: bogus_request_def)
  have nb: "''bogus'' \<notin> set SupportedFormats"
    by (simp add: SupportedFormats_def)
  have sh: "sharp strict_lib (content sample_file) = Inr (content sample_file)"
    by (simp add: strict_lib_def mock_lib_calls)
  have em: "sharp strict_lib [] = Inl (Error ''Input Buffer is empty'')"
    by (simp add: strict_lib_def mock_lib_def)
  note inst = convertFile_unknown_format [OF nm, of strict_lib]
  have noenc: "\<forall>enc. Encode_called enc \<notin> set (snd (convertFile strict_lib bogus_request))"
    by (rule inst [THEN conjunct2, THEN conjunct1])
  have "\<exists>fmt. form_targetFormat bogus_request = Some fmt \<and>
           fst (convertFile strict_lib bogus_request) =
             failure (Some (''Failed to convert image: Unsupported format: '' @ fmt))"
    by (rule inst [THEN conjunct2, THEN conjunct2, THEN conjunct2, THEN conjunct1, rule_format,
          of sample_file "content sample_file"])
       (simp add: bogus_passes sample_files(1) sh sample_wants_resize(1))
  then have "fst (convertFile strict_lib bogus_request) =
      failure (Some ''Failed to convert image: Unsupported format: bogus'')"
    by (auto simp: tf)
  with tf nb em noenc show ?thesis
    by - (intro conjI; assumption)
qed

subsection \<open>Width and height\<close>

lemma passes_validation_dimensions:
  "passes_validation (fd\<lparr>form_width := w, form_height := h\<rparr>) = passes_validation fd"
  by (simp add: passes_validation_def)

lemma convertFile_encoder_result:
  assumes "passes_validation fd" "form_file fd = Some f" "form_targetFormat fd = Some fmt"
    and "sharp lib (content f) = Inr i"
    and "if wants_resize fd
         then resize lib i (parse_optional (form_width fd)) (parse_optional (form_height fd))
                default_resize_options = Inr j
         else j = i"
    and "format_encoder fmt
           (case parse_optional (form_quality fd) of None \<Rightarrow> DEFAULT_QUALITY | Some v \<Rightarrow> v)
         = Some enc"
  shows "(\<forall>out. toBuffer lib j enc = Inr out \<longrightarrow>
            success (fst (convertFile lib fd)) \<and> data (fst (convertFile lib fd)) = Some out) \<and>
         (\<forall>e. toBuffer lib j enc = Inl e \<longrightarrow>
            fst (convertFile lib fd) =
              failure (Some (''Failed to convert image: '' @ thrown_message e)))"
proof -
  have run: "fst (convertImage_try lib (content f) (request_options fd fmt)) = toBuffer lib j enc"
    using convertFile_run [OF assms(1-5)] by (simp add: assms(6))
  show ?thesis
  proof (intro conjI allI impI)
    fix out assume "toBuffer lib j enc = Inr out"
    with run have "fst (convertImage_try lib (content f) (request_options fd fmt)) = Inr out"
      by simp
    from convertFile_fst_ok [OF assms(1-3) this]
    show "success (fst (convertFile lib fd))" "data (fst (convertFile lib fd)) = Some out"
      by simp_all
  next
    fix e assume "toBuffer lib j enc = Inl e"
    with run have "fst (convertImage_try lib (content f) (request_options fd fmt)) = Inl e"
      by simp
    from convertFile_fst_thrown [OF assms(1-3) this]
    show "fst (convertFile lib fd) =
        failure (Some (''Failed to convert image: '' @ thrown_message e))" .
  qed
qed


lemma out_of_range_rejected: "\<not> passes_validation out_of_range_request"
  by (simp add: passes_validation_def out_of_range_request_def sample_request_def
      parse_optional_def truthy_opt_str_def parseInt_samples validateQuality_def js_gt_def
      invalid_def)


text \<open>A width of \<open>1\<close> followed by 309 zeros parses to \<^verbatim>\<open>Infinity\<close>.\<close>

lemma digits_value_zeros:
  "foldl (\<lambda>acc c. 10 * acc + digit_value c) a (replicate n CHR ''0'') = a * 10 ^ n"
  by (induction n arbitrary: a) (simp_all add: digit_value_def)

lemma parseInt_overflow: "parseInt (CHR ''1'' # replicate 309 CHR ''0'') = PosInfinity"
proof -
  define s where "s = CHR ''1'' # replicate 309 CHR ''0''"
  have dw: "dropWhile isWhiteSpace s = s"
    by (simp add: s_def isWhiteSpace_def)
  have sg: "(case s of c # r \<Rightarrow> if c = CHR ''-'' then (True, r)
                                 else if c = CHR ''+'' then (False, r) else (False, s)
             | [] \<Rightarrow> (False, s)) = (False, s)"
    by (simp add: s_def)
  have ds: "takeWhile isDigit s = s"
    by (simp add: s_def isDigit_def takeWhile_eq_all_conv)
  have ne: "(s = []) = False"
    by (simp add: s_def)
  have "digits_value s = 10 ^ 309"
    by (simp add: s_def digits_value_def digits_value_zeros) (simp add: digit_value_def)
  moreover have "(2::nat) ^ 1024 \<le> 10 ^ 309"
    by simp
  ultimately have "to_double (digits_value s) = PosInfinity"
    by (simp only: to_double_overflow)
  then have "parseInt s = PosInfinity"
    by (simp only: parseInt_def Let_def dw sg ds ne prod.case if_False)
  then show ?thesis
    by (simp only: s_def)
qed

text \<open>
  C6 as stated fails: a request with the width \<open>20000\<close>, above the bound \<open>10000\<close>, passes
  the three checks; the conversion succeeds and \<^verbatim>\<open>resize\<close> is called with that width.
\<close>

theorem convertFile_accepts_width_20000:
  "form_width oversized_request = Some ''20000'' \<and> parseInt ''20000'' = Finite 20000 \<and>
   (10000 :: rat) < 20000 \<and>
   success (fst (convertFile ok_lib oversized_request)) \<and>
   Resize_called (Some (Finite 20000)) None default_resize_options
     \<in> set (snd (convertFile ok_lib oversized_request))"
proof -
  have ff: "form_file oversized_request = Some sample_file"
      "form_targetFormat oversized_request = Some ''webp''"
    by (simp_all add: oversized_request_def sample_request_def)
  have opts: "request_options oversized_request ''webp'' =
     \<lparr>format = ''webp'', quality = Some (Finite 90), width = Some (Finite 20000),
      height = None, fit = None\<rparr>"
    using sample_options
    by (simp add: request_options_def oversized_request_def parse_optional_def truthy_opt_str_def
        parseInt_samples)
  have img: "convertImage ok_lib (content sample_file) (request_options oversized_request ''webp'')
        = (Inr [137, 80, 78, 71],
           [Sharp_called [137, 80, 78, 71],
            Resize_called (Some (Finite 20000)) None default_resize_options,
            Encode_called (webp (Finite 90) False False 6)])"
    by (simp add: opts convertImage_def convertImage_try_def ok_lib_def sample_file_def
        truthy_opt_num_def truthy_num_def format_encoder_def DEFAULT_QUALITY_def js_eq_def
        js_gt_def default_resize_options_def)
  show ?thesis
    unfolding convertFile_accepted [OF oversized_passes ff] img
    by (simp add: parseInt_samples) (simp add: oversized_request_def)
qed

text \<open>
  C6, amended. The checks before the conversion do not look at the width or the height:
  changing them never changes whether a request passes, and a rejected request gets the
  same response and causes no call into the library whatever they are. A request that
  passes always reaches the library. What \<^verbatim>\<open>parseInt\<close> makes of a field is \<^verbatim>\<open>NaN\<close>, an
  infinity, or a number with an integer value of either sign, and that is what
  \<^verbatim>\<open>resize\<close> is called with, whenever the width or the height is a number other than \<open>0\<close>
  and \<^verbatim>\<open>NaN\<close>: if the constructor or that call of \<^verbatim>\<open>resize\<close> throws, the response is the
  failure with its message, and if it returns, the encoder is run on what it returned.
\<close>

theorem convertFile_ignores_dimensions:
  "passes_validation (fd\<lparr>form_width := w, form_height := h\<rparr>) = passes_validation fd \<and>
   (\<not> passes_validation fd \<longrightarrow>
      snd (convertFile lib fd) = [] \<and>
      convertFile lib (fd\<lparr>form_width := w, form_height := h\<rparr>) = convertFile lib fd) \<and>
   (passes_validation fd \<longrightarrow> (\<exists>b. Sharp_called b \<in> set (snd (convertFile lib fd)))) \<and>
   (\<forall>rw rh ro. Resize_called rw rh ro \<in> set (snd (convertFile lib fd)) \<longrightarrow>
      rw = parse_optional (form_width fd) \<and> rh = parse_optional (form_height fd)) \<and>
   (\<forall>s. parseInt s = NaN \<or> parseInt s = PosInfinity \<or> parseInt s = NegInfinity \<or>
        (\<exists>n::int. parseInt s = Finite (of_int n))) \<and>
   (\<forall>f e. passes_validation fd \<and> form_file fd = Some f \<and> sharp lib (content f) = Inl e \<longrightarrow>
      fst (convertFile lib fd) =
        failure (Some (''Failed to convert image: '' @ thrown_message e))) \<and>
   (\<forall>f i e. passes_validation fd \<and> form_file fd = Some f \<and> sharp lib (content f) = Inr i \<and>
      wants_resize fd \<and>
      resize lib i (parse_optional (form_width fd)) (parse_optional (form_height fd))
        default_resize_options = Inl e \<longrightarrow>
      fst (convertFile lib fd) =
        failure (Some (''Failed to convert image: '' @ thrown_message e))) \<and>
   (\<forall>f fmt i j enc out. passes_validation fd \<and> form_file fd = Some f \<and>
      form_targetFormat fd = Some fmt \<and> sharp lib (content f) = Inr i \<and> wants_resize fd \<and>
      resize lib i (parse_optional (form_width fd)) (parse_optional (form_height fd))
        default_resize_options = Inr j \<and>
      format_encoder fmt
        (case parse_optional (form_quality fd) of None \<Rightarrow> DEFAULT_QUALITY | Some v \<Rightarrow> v)
        = Some enc \<and>
      toBuffer lib j enc = Inr out \<longrightarrow>
      success (fst (convertFile lib fd)) \<and> data (fst (convertFile lib fd)) = Some out)"
proof -
  let ?fd' = "fd\<lparr>form_width := w, form_height := h\<rparr>"
  have inv: "passes_validation ?fd' = passes_validation fd"
    by (rule passes_validation_dimensions)
  have rej: "\<not> passes_validation fd \<longrightarrow>
      snd (convertFile lib fd) = [] \<and> convertFile lib ?fd' = convertFile lib fd"
  proof
    assume np: "\<not> passes_validation fd"
    then have np': "\<not> passes_validation ?fd'"
      by (simp add: passes_validation_dimensions)
    from convertFile_rejected [OF np, of lib] convertFile_rejected [OF np', of lib]
    show "snd (convertFile lib fd) = [] \<and> convertFile lib ?fd' = convertFile lib fd"
      by (simp add: prod_eq_iff)
  qed
  have acc: "passes_validation fd \<longrightarrow> (\<exists>b. Sharp_called b \<in> set (snd (convertFile lib fd)))"
  proof
    assume pv: "passes_validation fd"
    then obtain f fmt where ff: "form_file fd = Some f" "form_targetFormat fd = Some fmt"
      using passes_validation_fields by blast
    from convertFile_events_sup [OF pv ff, of lib] convertImage_try_sharp
    show "\<exists>b. Sharp_called b \<in> set (snd (convertFile lib fd))" by blast
  qed
  have rsz: "\<forall>rw rh ro. Resize_called rw rh ro \<in> set (snd (convertFile lib fd)) \<longrightarrow>
      rw = parse_optional (form_width fd) \<and> rh = parse_optional (form_height fd)"
  proof (intro allI impI)
    fix rw rh ro assume ev: "Resize_called rw rh ro \<in> set (snd (convertFile lib fd))"
    have "\<forall>s t. Resize_called rw rh ro \<noteq> Console_error s t"
      by simp
    from convertFile_events [OF ev this]
    obtain f :: File and fmt where
      "Resize_called rw rh ro \<in> set (snd (convertImage_try lib (content f) (request_options fd fmt)))"
      by blast
    from convertImage_try_resize [OF this]
    show "rw = parse_optional (form_width fd) \<and> rh = parse_optional (form_height fd)"
      by (simp add: request_options_def)
  qed
  have prs: "\<forall>s. parseInt s = NaN \<or> parseInt s = PosInfinity \<or> parseInt s = NegInfinity \<or>
        (\<exists>n::int. parseInt s = Finite (of_int n))"
    by (intro allI) (rule parseInt_integer)
  have thr1: "\<forall>f e. passes_validation fd \<and> form_file fd = Some f \<and> sharp lib (content f) = Inl e \<longrightarrow>
      fst (convertFile lib fd) =
        failure (Some (''Failed to convert image: '' @ thrown_message e))"
  proof (intro allI impI, elim conjE)
    fix f e
    assume "passes_validation fd" "form_file fd = Some f" "sharp lib (content f) = Inl e"
    then show "fst (convertFile lib fd) =
          failure (Some (''Failed to convert image: '' @ thrown_message e))"
      by (rule convertFile_sharp_throws)
  qed
  have thr2: "\<forall>f i e. passes_validation fd \<and> form_file fd = Some f \<and> sharp lib (content f) = Inr i \<and>
      wants_resize fd \<and>
      resize lib i (parse_optional (form_width fd)) (parse_optional (form_height fd))
        default_resize_options = Inl e \<longrightarrow>
      fst (convertFile lib fd) =
        failure (Some (''Failed to convert image: '' @ thrown_message e))"
  proof (intro allI impI, elim conjE)
    fix f i e
    assume "passes_validation fd" "form_file fd = Some f" "sharp lib (content f) = Inr i"
      "wants_resize fd"
      "resize lib i (parse_optional (form_width fd)) (parse_optional (form_height fd))
          default_resize_options = Inl e"
    then show "fst (convertFile lib fd) =
          failure (Some (''Failed to convert image: '' @ thrown_message e))"
      by (rule convertFile_resize_throws)
  qed
  have ok: "\<forall>f fmt i j enc out. passes_validation fd \<and> form_file fd = Some f \<and>
      form_targetFormat fd = Some fmt \<and> sharp lib (content f) = Inr i \<and> wants_resize fd \<and>
      resize lib i (parse_optional (form_width fd)) (parse_optional (form_height fd))
        default_resize_options = Inr j \<and>
      format_encoder fmt
        (case parse_optional (form_quality fd) of None \<Rightarrow> DEFAULT_QUALITY | Some v \<Rightarrow> v)
        = Some enc \<and>
      toBuffer lib j enc = Inr out \<longrightarrow>
      success (fst (convertFile lib fd)) \<and> data (fst (convertFile lib fd)) = Some out"
  proof (intro allI impI, elim conjE)
    fix f fmt i j enc out
    assume pv: "passes_validation fd" and ff: "form_file fd = Some f"
      and tf: "form_targetFormat fd = Some fmt" and sh: "sharp lib (content f) = Inr i"
      and wr: "wants_resize fd"
      and rs: "resize lib i (parse_optional (form_width fd)) (parse_optional (form_height fd))
        default_resize_options = Inr j"
      and enc: "format_encoder fmt
        (case parse_optional (form_quality fd) of None \<Rightarrow> DEFAULT_QUALITY | Some v \<Rightarrow> v)
        = Some enc"
      and out: "toBuffer lib j enc = Inr out"
    have j: "if wants_resize fd
         then resize lib i (parse_optional (form_width fd)) (parse_optional (form_height fd))
                default_resize_options = Inr j
         else j = i"
      using wr rs by simp
    from convertFile_encoder_result [OF pv ff tf sh j enc] out
    show "success (fst (convertFile lib fd)) \<and> data (fst (convertFile lib fd)) = Some out"
      by simp
  qed
  show ?thesis
    using inv rej acc rsz prs thr1 thr2 ok by - (intro conjI; assumption)
qed

text \<open>
  C6, amended, at a request with quality \<open>150\<close>, and at the widths \<open>-5\<close> and \<open>20000\<close> with a
  library that refuses a width that is not positive.
\<close>

theorem convertFile_ignores_dimensions_witness:
  "\<not> passes_validation out_of_range_request \<and>
   convertFile strict_lib (out_of_range_request\<lparr>form_width := Some ''20000'', form_height := Some ''-5''\<rparr>)
     = convertFile strict_lib out_of_range_request \<and>
   parse_optional (form_width negative_width_request) = Some (Finite (- 5)) \<and>
   fst (convertFile strict_lib negative_width_request) =
     failure (Some ''Failed to convert image: Invalid resize arguments'') \<and>
   parse_optional (form_width oversized_request) = Some (Finite 20000) \<and>
   success (fst (convertFile strict_lib oversized_request)) \<and>
   data (fst (convertFile strict_lib oversized_request)) = Some [137, 80, 78, 71]"
proof -
  note rejected = convertFile_ignores_dimensions [where fd = out_of_range_request
      and w = "Some ''20000''" and h = "Some ''-5''" and lib = strict_lib,
      THEN conjunct2, THEN conjunct1, rule_format]
  note throws = convertFile_ignores_dimensions [where fd = negative_width_request
      and w = None and h = None and lib = strict_lib,
      THEN conjunct2, THEN conjunct2, THEN conjunct2, THEN conjunct2, THEN conjunct2,
      THEN conjunct2, THEN conjunct1, rule_format,
      of sample_file "content sample_file" "Error ''Invalid resize arguments''"]
  note returns = convertFile_ignores_dimensions [where fd = oversized_request
      and w = None and h = None and lib = strict_lib,
      THEN conjunct2, THEN conjunct2, THEN conjunct2, THEN conjunct2, THEN conjunct2,
      THEN conjunct2, THEN conjunct2, rule_format,
      of sample_file "''webp''" "content sample_file" "content sample_file"
         "webp (Finite 90) False False 6" "content sample_file"]
  have sh: "sharp strict_lib (content sample_file) = Inr (content sample_file)"
    by (simp add: strict_lib_def mock_lib_calls)
  have same: "convertFile strict_lib
       (out_of_range_request\<lparr>form_width := Some ''20000'', form_height := Some ''-5''\<rparr>)
     = convertFile strict_lib out_of_range_request"
    using rejected [OF out_of_range_rejected] by simp
  have neg: "fst (convertFile strict_lib negative_width_request) =
     failure (Some (''Failed to convert image: '' @ thrown_message (Error ''Invalid resize arguments'')))"
    by (rule throws)
       (simp add: negative_width_passes sample_files sh sample_wants_resize sample_dimensions
         strict_lib_def mock_lib_calls positive_dimension_def js_gt_def)
  have big: "success (fst (convertFile strict_lib oversized_request)) \<and>
      data (fst (convertFile strict_lib oversized_request)) = Some (content sample_file)"
    by (rule returns)
       (simp add: oversized_passes sample_files sh sample_wants_resize sample_dimensions
         sample_quality webp_encoders strict_lib_def mock_lib_calls positive_dimension_def
         js_gt_def)
  from out_of_range_rejected same neg big sample_dimensions(3,5) show ?thesis
    by (simp add: thrown_message_def sample_file_def)
qed


subsection \<open>Default quality and resize settings\<close>







end
